theory Spec2Isabelle
  imports Main "HOL-Library.Word" "HOL-Library.Log_Nat"
begin

unbundle bit_operations_syntax

section \<open>Python values, exceptions and the library functions the converter calls\<close>

text \<open>
  The converter is \<^verbatim>\<open>src/src/__init__.py\<close>. Its exceptions are values of \<open>pyerr\<close>; a
  computation that may raise returns \<open>pyerr + 'a\<close> with \<open>Inl\<close> for the exception.
  \<open>KeyError\<close> carries the missing key, as Python's does. \<open>OSError\<close> stands for the
  error of a failed \<^verbatim>\<open>open\<close> (\<^verbatim>\<open>FileNotFoundError\<close> and its siblings).
\<close>

datatype pyerr =
    KeyError string
  | TypeError
  | ValueError
  | IndexError
  | OverflowError
  | AttributeError
  | OSError

definition rbind :: "'e + 'a \<Rightarrow> ('a \<Rightarrow> 'e + 'b) \<Rightarrow> 'e + 'b" where
  "rbind m f = (case m of Inl e \<Rightarrow> Inl e | Inr x \<Rightarrow> f x)"

subsection \<open>Text\<close>

text \<open>
  A Python \<^verbatim>\<open>str\<close> is modelled as a \<open>string\<close> whose characters are the code points
  0..255 (text outside Latin-1 is not representable in this model).
  \<open>is_space\<close> is \<^verbatim>\<open>str.isspace\<close> on those code points, \<open>strip\<close> is \<^verbatim>\<open>str.strip()\<close>.
\<close>

definition is_space :: "char \<Rightarrow> bool" where
  "is_space c = (of_char c \<in> set [9, 10, 11, 12, 13, 28, 29, 30, 31, 32, 133, 160 :: nat])"

definition strip :: "string \<Rightarrow> string" where
  "strip s = rev (dropWhile is_space (rev (dropWhile is_space s)))"

text \<open>\<^verbatim>\<open>a < b\<close> on two \<^verbatim>\<open>str\<close>: lexicographic on code points.\<close>

fun str_less :: "string \<Rightarrow> string \<Rightarrow> bool" where
  "str_less [] [] = False"
| "str_less [] (y # ys) = True"
| "str_less (x # xs) [] = False"
| "str_less (x # xs) (y # ys) =
     (if (of_char x :: nat) < of_char y then True
      else if (of_char y :: nat) < of_char x then False
      else str_less xs ys)"

text \<open>\<^verbatim>\<open>needle in hay\<close> on two \<^verbatim>\<open>str\<close>: substring test.\<close>

fun is_prefix :: "string \<Rightarrow> string \<Rightarrow> bool" where
  "is_prefix [] ys = True"
| "is_prefix (x # xs) [] = False"
| "is_prefix (x # xs) (y # ys) = (x = y \<and> is_prefix xs ys)"

fun str_contains :: "string \<Rightarrow> string \<Rightarrow> bool" where
  "str_contains needle [] = (needle = [])"
| "str_contains needle (c # cs) = (is_prefix needle (c # cs) \<or> str_contains needle cs)"

text \<open>\<^verbatim>\<open>s.split("\n")\<close>: the pieces between line feeds, at least one piece.\<close>

fun split_nl :: "string \<Rightarrow> string list" where
  "split_nl [] = [[]]"
| "split_nl (c # cs) =
     (if c = CHR 0x0A then [] # split_nl cs
      else (case split_nl cs of [] \<Rightarrow> [[c]] | p # ps \<Rightarrow> (c # p) # ps))"

subsection \<open>Integers and their text\<close>

text \<open>
  \<^verbatim>\<open>int(s)\<close> on a \<^verbatim>\<open>str\<close>: surrounding white space is dropped (for \<^verbatim>\<open>int\<close> the ASCII
  separators 28..31 do not count as white space), then an optional sign and decimal
  digits, where single underscores may stand between digits. Anything else raises
  \<^verbatim>\<open>ValueError\<close>. (The length limit that recent interpreters put on the digit string is
  not modelled.)
\<close>

definition is_int_space :: "char \<Rightarrow> bool" where
  "is_int_space c = (of_char c \<in> set [9, 10, 11, 12, 13, 32, 133, 160 :: nat])"

definition is_digit :: "char \<Rightarrow> bool" where
  "is_digit c = (48 \<le> (of_char c :: nat) \<and> (of_char c :: nat) \<le> 57)"

definition digit_val :: "char \<Rightarrow> int" where
  "digit_val c = int (of_char c) - 48"

fun int_digits :: "int \<Rightarrow> string \<Rightarrow> int option" where
  "int_digits acc [] = Some acc"
| "int_digits acc (c # cs) =
     (if is_digit c then int_digits (acc * 10 + digit_val c) cs
      else if c = CHR ''_'' \<and> cs \<noteq> [] \<and> is_digit (hd cs) then int_digits acc cs
      else None)"

definition int_unsigned :: "string \<Rightarrow> int option" where
  "int_unsigned s = (if s \<noteq> [] \<and> is_digit (hd s) then int_digits 0 s else None)"

definition py_int :: "string \<Rightarrow> pyerr + int" where
  "py_int s =
     (let t = rev (dropWhile is_int_space (rev (dropWhile is_int_space s)));
          r = (case t of
                 [] \<Rightarrow> None
               | c # cs \<Rightarrow>
                   if c = CHR ''-'' then map_option uminus (int_unsigned cs)
                   else if c = CHR ''+'' then int_unsigned cs
                   else int_unsigned t)
      in case r of None \<Rightarrow> Inl ValueError | Some n \<Rightarrow> Inr n)"

text \<open>\<^verbatim>\<open>str(n)\<close> on an \<^verbatim>\<open>int\<close>: decimal digits, \<open>-\<close> in front of a negative number.\<close>

fun nat_digits :: "nat \<Rightarrow> string" where
  "nat_digits n =
     (if n < 10 then [char_of (48 + n)]
      else nat_digits (n div 10) @ [char_of (48 + n mod 10)])"

declare nat_digits.simps [simp del]

definition py_str :: "int \<Rightarrow> string" where
  "py_str n = (if n < 0 then CHR ''-'' # nat_digits (nat (- n)) else nat_digits (nat n))"

subsection \<open>The float arithmetic of the line rounding\<close>

text \<open>
  The converter computes \<^verbatim>\<open>int(math.ceil(line / 10.0)) * 10\<close> with \<^verbatim>\<open>line\<close> a Python
  \<^verbatim>\<open>int\<close>. The division is a division of IEEE 754 doubles: \<^verbatim>\<open>line\<close> is first
  converted to the nearest double (ties to even; \<^verbatim>\<open>OverflowError\<close> when the result
  would not be finite), and the quotient is rounded to the nearest double again. Both
  roundings are written out here on integers: a double is \<open>m * 2 ^ e\<close> with \<open>m\<close> of at
  most 53 bits. Quotients of a non-zero integer by ten are far from the subnormal
  range, so no exponent bound is needed below.
\<close>

definition round_half_even :: "int \<Rightarrow> int \<Rightarrow> int" where
  "round_half_even p q =
     (let d = p div q; r = p mod q
      in if q < 2 * r \<or> (2 * r = q \<and> odd d) then d + 1 else d)"

text \<open>\<open>float_of_int n\<close>: the (integral) value of \<^verbatim>\<open>float(n)\<close>.\<close>

definition float_of_nat :: "int \<Rightarrow> int" where
  "float_of_nat m =
     (let b = bitlen m
      in if b \<le> 53 then m
         else round_half_even m (2 ^ nat (b - 53)) * 2 ^ nat (b - 53))"

definition float_of_int :: "int \<Rightarrow> pyerr + int" where
  "float_of_int n =
     (let v = float_of_nat \<bar>n\<bar>
      in if 2 ^ 1024 \<le> v then Inl OverflowError else Inr (sgn n * v))"

text \<open>
  \<open>ceil_div10 x\<close>: \<^verbatim>\<open>math.ceil(x / 10.0)\<close> for a double \<open>x\<close> of integral value. The
  quotient \<open>x / 10\<close> lies in \<open>[2 ^ fl, 2 ^ (fl + 1))\<close>, its double is
  \<open>sig * 2 ^ (fl - 52)\<close> with \<open>sig\<close> the rounded significand.
\<close>

definition div10_exponent :: "int \<Rightarrow> int" where
  "div10_exponent x = (let b = bitlen x in (if 10 * 2 ^ nat b \<le> 16 * x then b - 4 else b - 5) - 52)"

definition div10_significand :: "int \<Rightarrow> int" where
  "div10_significand x =
     (let e = div10_exponent x
      in if e < 0 then round_half_even (x * 2 ^ nat (- e)) 10
         else round_half_even x (10 * 2 ^ nat e))"

definition ceil_div10_pos :: "int \<Rightarrow> int" where
  "ceil_div10_pos x =
     (let e = div10_exponent x; sig = div10_significand x
      in if e < 0 then - ((- sig) div 2 ^ nat (- e)) else sig * 2 ^ nat e)"

definition floor_div10_pos :: "int \<Rightarrow> int" where
  "floor_div10_pos x =
     (let e = div10_exponent x; sig = div10_significand x
      in if e < 0 then sig div 2 ^ nat (- e) else sig * 2 ^ nat e)"

definition ceil_div10 :: "int \<Rightarrow> int" where
  "ceil_div10 x =
     (if x = 0 then 0
      else if 0 < x then ceil_div10_pos x
      else - floor_div10_pos (- x))"

text \<open>\<^verbatim>\<open>int(math.ceil(line / 10.0)) * 10\<close>.\<close>

definition round_line :: "int \<Rightarrow> pyerr + int" where
  "round_line line = rbind (float_of_int line) (\<lambda>x. Inr (ceil_div10 x * 10))"

subsection \<open>UTF-8, MD5 and the hexadecimal digest\<close>

text \<open>
  \<^verbatim>\<open>s.encode("utf-8")\<close> on the code points 0..255: one byte below 128, two bytes
  from 128 on.
\<close>

definition utf8_char :: "char \<Rightarrow> 8 word list" where
  "utf8_char c =
     (let n = (of_char c :: nat)
      in if n < 128 then [of_nat n]
         else [of_nat (192 + n div 64), of_nat (128 + n mod 64)])"

definition utf8 :: "string \<Rightarrow> 8 word list" where
  "utf8 s = concat (map utf8_char s)"

text \<open>
  \<^verbatim>\<open>hashlib.md5\<close> (RFC 1321): the message is padded with the byte \<open>0x80\<close>, zero bytes up
  to 56 modulo 64 and the bit length as 64 bits, least significant byte first; each
  block of 64 bytes is read as sixteen little-endian 32-bit words and mixed into the
  four-word state in 64 steps; \<open>rotl32\<close> rotates a word to the left, by 4 to 23 bits
  here.
\<close>

definition md5_K :: "32 word list" where
  "md5_K = [
      0xD76AA478, 0xE8C7B756, 0x242070DB, 0xC1BDCEEE,
      0xF57C0FAF, 0x4787C62A, 0xA8304613, 0xFD469501,
      0x698098D8, 0x8B44F7AF, 0xFFFF5BB1, 0x895CD7BE,
      0x6B901122, 0xFD987193, 0xA679438E, 0x49B40821,
      0xF61E2562, 0xC040B340, 0x265E5A51, 0xE9B6C7AA,
      0xD62F105D, 0x02441453, 0xD8A1E681, 0xE7D3FBC8,
      0x21E1CDE6, 0xC33707D6, 0xF4D50D87, 0x455A14ED,
      0xA9E3E905, 0xFCEFA3F8, 0x676F02D9, 0x8D2A4C8A,
      0xFFFA3942, 0x8771F681, 0x6D9D6122, 0xFDE5380C,
      0xA4BEEA44, 0x4BDECFA9, 0xF6BB4B60, 0xBEBFBC70,
      0x289B7EC6, 0xEAA127FA, 0xD4EF3085, 0x04881D05,
      0xD9D4D039, 0xE6DB99E5, 0x1FA27CF8, 0xC4AC5665,
      0xF4292244, 0x432AFF97, 0xAB9423A7, 0xFC93A039,
      0x655B59C3, 0x8F0CCC92, 0xFFEFF47D, 0x85845DD1,
      0x6FA87E4F, 0xFE2CE6E0, 0xA3014314, 0x4E0811A1,
      0xF7537E82, 0xBD3AF235, 0x2AD7D2BB, 0xEB86D391]"

definition md5_S :: "nat list" where
  "md5_S = [
      7, 12, 17, 22, 7, 12, 17, 22, 7, 12, 17, 22, 7, 12, 17, 22,
      5, 9, 14, 20, 5, 9, 14, 20, 5, 9, 14, 20, 5, 9, 14, 20,
      4, 11, 16, 23, 4, 11, 16, 23, 4, 11, 16, 23, 4, 11, 16, 23,
      6, 10, 15, 21, 6, 10, 15, 21, 6, 10, 15, 21, 6, 10, 15, 21]"

definition le_bytes :: "nat \<Rightarrow> nat \<Rightarrow> 8 word list" where
  "le_bytes k n = map (\<lambda>i. of_nat (n div 256 ^ i mod 256)) [0..<k]"

definition md5_pad :: "8 word list \<Rightarrow> 8 word list" where
  "md5_pad bs =
     bs @ [128] @ replicate ((119 - length bs mod 64) mod 64) 0
        @ le_bytes 8 ((8 * length bs) mod 2 ^ 64)"

definition word_of_le :: "8 word list \<Rightarrow> 32 word" where
  "word_of_le bs = foldr (\<lambda>b w. push_bit 8 w OR ucast b) bs 0"

fun md5_words :: "nat \<Rightarrow> 8 word list \<Rightarrow> 32 word list" where
  "md5_words 0 bs = []"
| "md5_words (Suc k) bs = word_of_le (take 4 bs) # md5_words k (drop 4 bs)"

type_synonym md5_state = "32 word \<times> 32 word \<times> 32 word \<times> 32 word"

definition rotl32 :: "nat \<Rightarrow> 32 word \<Rightarrow> 32 word" where
  "rotl32 n w = push_bit n w OR drop_bit (32 - n) w"

definition md5_step :: "32 word list \<Rightarrow> md5_state \<Rightarrow> nat \<Rightarrow> md5_state" where
  "md5_step m st i =
     (case st of (a, b, c, d) \<Rightarrow>
        let f = (if i < 16 then (b AND c) OR (NOT b AND d)
                 else if i < 32 then (d AND b) OR (NOT d AND c)
                 else if i < 48 then b XOR c XOR d
                 else c XOR (b OR NOT d));
            g = (if i < 16 then i
                 else if i < 32 then (5 * i + 1) mod 16
                 else if i < 48 then (3 * i + 5) mod 16
                 else (7 * i) mod 16)
        in (d, b + rotl32 (md5_S ! i) (a + f + md5_K ! i + m ! g), b, c))"

definition md5_block :: "md5_state \<Rightarrow> 8 word list \<Rightarrow> md5_state" where
  "md5_block st blk =
     (case st of (a0, b0, c0, d0) \<Rightarrow>
        case foldl (md5_step (md5_words 16 blk)) st [0..<64] of (a, b, c, d) \<Rightarrow>
          (a0 + a, b0 + b, c0 + c, d0 + d))"

fun md5_blocks :: "nat \<Rightarrow> md5_state \<Rightarrow> 8 word list \<Rightarrow> md5_state" where
  "md5_blocks 0 st bs = st"
| "md5_blocks (Suc k) st bs = md5_blocks k (md5_block st (take 64 bs)) (drop 64 bs)"

definition md5_init :: md5_state where
  "md5_init = (0x67452301, 0xEFCDAB89, 0x98BADCFE, 0x10325476)"

definition word_le_bytes :: "32 word \<Rightarrow> 8 word list" where
  "word_le_bytes w = map (\<lambda>i. ucast (drop_bit (8 * i) w)) [0..<4]"

definition md5 :: "8 word list \<Rightarrow> 8 word list" where
  "md5 bs =
     (let p = md5_pad bs
      in case md5_blocks (length p div 64) md5_init p of (a, b, c, d) \<Rightarrow>
           word_le_bytes a @ word_le_bytes b @ word_le_bytes c @ word_le_bytes d)"

text \<open>\<^verbatim>\<open>.hexdigest()\<close>: two lowercase hexadecimal digits for each byte.\<close>

definition hex_digit :: "nat \<Rightarrow> char" where
  "hex_digit n = (if n < 10 then char_of (48 + n) else char_of (87 + n))"

definition hex_byte :: "8 word \<Rightarrow> string" where
  "hex_byte b = [hex_digit (unat b div 16), hex_digit (unat b mod 16)]"

definition hexdigest :: "8 word list \<Rightarrow> string" where
  "hexdigest bs = concat (map hex_byte bs)"

definition md5_hex :: "string \<Rightarrow> string" where
  "md5_hex s = hexdigest (md5 (utf8 s))"

section \<open>The parsed report\<close>

text \<open>
  \<^verbatim>\<open>xmltodict.parse\<close> turns the XML text into nested Python values: an element
  becomes \<^verbatim>\<open>None\<close> (no attribute, no content), a \<^verbatim>\<open>str\<close> (text only) or a dictionary;
  repeated children become a list. In a dictionary the keys that start with \<open>@\<close>
  are the element's attributes and their values are strings. \<open>XDict as ks\<close> is the
  dictionary with the entry \<open>@a: v\<close> for each \<open>(a, v)\<close> of \<open>as\<close> and the entry
  \<open>k: v\<close> for each \<open>(k, v)\<close> of \<open>ks\<close>.
\<close>

datatype xval =
    XNone
  | XStr string
  | XList "xval list"
  | XDict "(string \<times> string) list" "(string \<times> xval) list"

definition is_attr_key :: "string \<Rightarrow> bool" where
  "is_attr_key key = (key \<noteq> [] \<and> hd key = CHR ''@'')"

text \<open>\<^verbatim>\<open>x[key]\<close> with \<open>key\<close> a string.\<close>

fun getitem :: "xval \<Rightarrow> string \<Rightarrow> pyerr + xval" where
  "getitem (XDict as ks) key =
     (if is_attr_key key
      then (case map_of as (tl key) of None \<Rightarrow> Inl (KeyError key) | Some v \<Rightarrow> Inr (XStr v))
      else (case map_of ks key of None \<Rightarrow> Inl (KeyError key) | Some v \<Rightarrow> Inr v))"
| "getitem XNone key = Inl TypeError"
| "getitem (XStr s) key = Inl TypeError"
| "getitem (XList xs) key = Inl TypeError"

text \<open>\<^verbatim>\<open>x["@a"]\<close>, the value of an attribute: a string.\<close>

fun attr :: "xval \<Rightarrow> string \<Rightarrow> pyerr + string" where
  "attr (XDict as ks) key =
     (case map_of as (tl key) of None \<Rightarrow> Inl (KeyError key) | Some v \<Rightarrow> Inr v)"
| "attr XNone key = Inl TypeError"
| "attr (XStr s) key = Inl TypeError"
| "attr (XList xs) key = Inl TypeError"

text \<open>\<^verbatim>\<open>key in x\<close>.\<close>

fun contains :: "string \<Rightarrow> xval \<Rightarrow> pyerr + bool" where
  "contains key (XDict as ks) =
     Inr (if is_attr_key key then map_of as (tl key) \<noteq> None else map_of ks key \<noteq> None)"
| "contains key XNone = Inl TypeError"
| "contains key (XStr s) = Inr (str_contains key s)"
| "contains key (XList xs) = Inr (XStr key \<in> set xs)"

text \<open>\<^verbatim>\<open>len(x)\<close>.\<close>

fun py_len :: "xval \<Rightarrow> pyerr + nat" where
  "py_len (XDict as ks) = Inr (length as + length ks)"
| "py_len XNone = Inl TypeError"
| "py_len (XStr s) = Inr (length s)"
| "py_len (XList xs) = Inr (length xs)"

text \<open>\<^verbatim>\<open>isinstance(x, dict)\<close> and \<^verbatim>\<open>isinstance(x, list)\<close>.\<close>

fun is_dict :: "xval \<Rightarrow> bool" where
  "is_dict (XDict as ks) = True"
| "is_dict _ = False"

fun is_list :: "xval \<Rightarrow> bool" where
  "is_list (XList xs) = True"
| "is_list _ = False"

section \<open>The module state\<close>

text \<open>
  The module holds the template \<^verbatim>\<open>CODE_QUAL_ELEMENT\<close>, a dictionary whose
  \<^verbatim>\<open>"location"\<close> entry is a dictionary, whose \<^verbatim>\<open>"positions"\<close> entry is a dictionary,
  whose \<^verbatim>\<open>"begin"\<close> entry is a dictionary. The converter copies the template with
  \<^verbatim>\<open>dict(...)\<close>, which copies the outer dictionary only, and with \<^verbatim>\<open>deepcopy\<close>. So the
  dictionaries are objects in a store: one list of objects for each of the four
  shapes, an object's address being its index, and an entry that holds a dictionary
  holds its address. The state also carries the log records written so far (level
  and format string).
\<close>

record begin_obj =
  b_line :: int
  b_column :: int

record positions_obj =
  p_begin :: nat

record location_obj =
  l_path :: string
  l_positions :: nat

text \<open>
  The template holds a placeholder string under \<^verbatim>\<open>"categories"\<close>, an issue a list of
  strings.
\<close>

datatype cats = CatStr string | CatList "string list"

text \<open>
  The keys \<^verbatim>\<open>"other_locations"\<close> and \<^verbatim>\<open>"content"\<close> are absent from the template and
  are added to an issue when needed: \<open>None\<close> is the absent key. The value under
  \<^verbatim>\<open>"content"\<close> is a dictionary with the one key \<^verbatim>\<open>"data"\<close>.
\<close>

record issue_obj =
  i_type :: string
  i_check_name :: string
  i_description :: string
  i_categories :: cats
  i_fingerprint :: string
  i_location :: nat
  i_other_locations :: "nat list option"
  i_content :: "string option"

datatype level = DEBUG | INFO | WARNING

record state =
  begins :: "begin_obj list"
  positionss :: "positions_obj list"
  locations :: "location_obj list"
  issues :: "issue_obj list"
  logs :: "(level \<times> string) list"

text \<open>The address of \<^verbatim>\<open>CODE_QUAL_ELEMENT\<close> and the state after the module is loaded.\<close>

definition CODE_QUAL_ELEMENT :: nat where
  "CODE_QUAL_ELEMENT = 0"

definition template_issue :: issue_obj where
  "template_issue =
     \<lparr> i_type = ''issue'',
       i_check_name = ''--CODE-CLIMATE-REQUIREMENT--'',
       i_description = ''--CODE-CLIMATE-REQUIREMENT--'',
       i_categories = CatStr ''--CODE-CLIMATE-REQUIREMENT--'',
       i_fingerprint = ''--GITLAB-REQUIREMENT--'',
       i_location = 0,
       i_other_locations = None,
       i_content = None \<rparr>"

definition module_init :: state where
  "module_init =
     \<lparr> begins = [\<lparr> b_line = - 1, b_column = - 1 \<rparr>],
       positionss = [\<lparr> p_begin = 0 \<rparr>],
       locations = [\<lparr> l_path = [], l_positions = 0 \<rparr>],
       issues = [template_issue],
       logs = [] \<rparr>"

definition add_log :: "level \<Rightarrow> string \<Rightarrow> state \<Rightarrow> state" where
  "add_log lv msg s = s\<lparr> logs := logs s @ [(lv, msg)] \<rparr>"

subsection \<open>Creating, copying and updating objects\<close>

definition new_begin :: "begin_obj \<Rightarrow> state \<Rightarrow> state \<times> nat" where
  "new_begin ob s = (s\<lparr> begins := begins s @ [ob] \<rparr>, length (begins s))"

definition new_positions :: "positions_obj \<Rightarrow> state \<Rightarrow> state \<times> nat" where
  "new_positions ob s = (s\<lparr> positionss := positionss s @ [ob] \<rparr>, length (positionss s))"

definition new_location :: "location_obj \<Rightarrow> state \<Rightarrow> state \<times> nat" where
  "new_location ob s = (s\<lparr> locations := locations s @ [ob] \<rparr>, length (locations s))"

definition new_issue :: "issue_obj \<Rightarrow> state \<Rightarrow> state \<times> nat" where
  "new_issue ob s = (s\<lparr> issues := issues s @ [ob] \<rparr>, length (issues s))"

definition upd_issue :: "nat \<Rightarrow> (issue_obj \<Rightarrow> issue_obj) \<Rightarrow> state \<Rightarrow> state" where
  "upd_issue a f s = s\<lparr> issues := (issues s)[a := f (issues s ! a)] \<rparr>"

text \<open>\<^verbatim>\<open>loc["path"] = v\<close> for the location dictionary at address \<open>a\<close>.\<close>

definition set_path :: "nat \<Rightarrow> string \<Rightarrow> state \<Rightarrow> state" where
  "set_path a v s = s\<lparr> locations := (locations s)[a := (locations s ! a)\<lparr> l_path := v \<rparr>] \<rparr>"

text \<open>
  \<^verbatim>\<open>loc["positions"]["begin"]["line"] = v\<close> and the same for \<^verbatim>\<open>"column"\<close>: the two
  lookups follow the addresses stored in the dictionaries.
\<close>

definition begin_of :: "state \<Rightarrow> nat \<Rightarrow> nat" where
  "begin_of s a = p_begin (positionss s ! l_positions (locations s ! a))"

definition set_line :: "nat \<Rightarrow> int \<Rightarrow> state \<Rightarrow> state" where
  "set_line a v s =
     s\<lparr> begins := (begins s)[begin_of s a := (begins s ! begin_of s a)\<lparr> b_line := v \<rparr>] \<rparr>"

definition set_column :: "nat \<Rightarrow> int \<Rightarrow> state \<Rightarrow> state" where
  "set_column a v s =
     s\<lparr> begins := (begins s)[begin_of s a := (begins s ! begin_of s a)\<lparr> b_column := v \<rparr>] \<rparr>"

text \<open>
  \<^verbatim>\<open>deepcopy\<close> of a location dictionary: new objects for the location, its positions
  and its begin. \<^verbatim>\<open>deepcopy\<close> of an issue: a new issue object with deep copies of its
  location and of every element of its other locations; strings are immutable and
  shared. (The objects reached from one issue share no dictionary with each other,
  so the memo table of \<^verbatim>\<open>deepcopy\<close> plays no part.)
\<close>

definition deepcopy_location :: "nat \<Rightarrow> state \<Rightarrow> state \<times> nat" where
  "deepcopy_location a s =
     (let lo = locations s ! a;
          (s1, b) = new_begin (begins s ! begin_of s a) s;
          (s2, p) = new_positions \<lparr> p_begin = b \<rparr> s1
      in new_location \<lparr> l_path = l_path lo, l_positions = p \<rparr> s2)"

fun deepcopy_locations :: "nat list \<Rightarrow> state \<Rightarrow> state \<times> nat list" where
  "deepcopy_locations [] s = (s, [])"
| "deepcopy_locations (a # as) s =
     (let (s1, c) = deepcopy_location a s;
          (s2, cs) = deepcopy_locations as s1
      in (s2, c # cs))"

definition deepcopy_issue :: "nat \<Rightarrow> state \<Rightarrow> state \<times> nat" where
  "deepcopy_issue a s =
     (let io = issues s ! a;
          (s1, l) = deepcopy_location (i_location io) s;
          (s2, others) =
            (case i_other_locations io of
               None \<Rightarrow> (s1, None)
             | Some as \<Rightarrow> (let (s', cs) = deepcopy_locations as s1 in (s', Some cs)))
      in new_issue (io\<lparr> i_location := l, i_other_locations := others \<rparr>) s2)"

subsection \<open>What \<^verbatim>\<open>json.dumps\<close> is given\<close>

datatype json =
    JStr string
  | JInt int
  | JList "json list"
  | JDict "(string \<times> json) list"

definition dump_location :: "state \<Rightarrow> nat \<Rightarrow> json" where
  "dump_location s a =
     JDict [(''path'', JStr (l_path (locations s ! a))),
            (''positions'',
               JDict [(''begin'',
                  JDict [(''line'', JInt (b_line (begins s ! begin_of s a))),
                         (''column'', JInt (b_column (begins s ! begin_of s a)))])])]"

definition dump_cats :: "cats \<Rightarrow> json" where
  "dump_cats c = (case c of CatStr t \<Rightarrow> JStr t | CatList ts \<Rightarrow> JList (map JStr ts))"

definition dump_issue :: "state \<Rightarrow> nat \<Rightarrow> json" where
  "dump_issue s a =
     (let io = issues s ! a
      in JDict ([(''type'', JStr (i_type io)),
                 (''check_name'', JStr (i_check_name io)),
                 (''description'', JStr (i_description io)),
                 (''categories'', dump_cats (i_categories io)),
                 (''fingerprint'', JStr (i_fingerprint io)),
                 (''location'', dump_location s (i_location io))]
                @ (case i_other_locations io of
                     None \<Rightarrow> []
                   | Some as \<Rightarrow> [(''other_locations'', JList (map (dump_location s) as))])
                @ (case i_content io of
                     None \<Rightarrow> []
                   | Some d \<Rightarrow> [(''content'', JDict [(''data'', JStr d)])])))"

section \<open>The converter\<close>

text \<open>
  The library functions the converter calls on the outside world are parameters:
  \<^verbatim>\<open>xmltodict.parse\<close>, \<^verbatim>\<open>json.dumps\<close> (from the value it is given to its text) and
  \<^verbatim>\<open>linecache.getlines\<close> (the lines of a source file, the empty list when the file
  cannot be read).
\<close>

record pylib =
  xmltodict_parse :: "string \<Rightarrow> pyerr + xval"
  json_dumps :: "json \<Rightarrow> string"
  linecache_getlines :: "string \<Rightarrow> string list"

text \<open>\<^verbatim>\<open>linecache.getline(filename, lineno)\<close>.\<close>

definition getline :: "pylib \<Rightarrow> string \<Rightarrow> int \<Rightarrow> string" where
  "getline L filename lineno =
     (let lines = linecache_getlines L filename
      in if 1 \<le> lineno \<and> lineno \<le> int (length lines) then lines ! nat (lineno - 1) else [])"

text \<open>\<^verbatim>\<open>__get_codeclimate_category\<close> (lines 54 to 69).\<close>

definition map_severity_to_category :: "(string \<times> string) list" where
  "map_severity_to_category =
     [(''error'', ''Bug Risk''),
      (''warning'', ''Bug Risk''),
      (''style'', ''Style''),
      (''performance'', ''Performance''),
      (''portability'', ''Compatibility''),
      (''information'', ''Style'')]"

definition get_codeclimate_category :: "string \<Rightarrow> pyerr + string" where
  "get_codeclimate_category cppcheck_severity =
     (case map_of map_severity_to_category cppcheck_severity of
        None \<Rightarrow> Inl (KeyError cppcheck_severity)
      | Some c \<Rightarrow> Inr c)"

subsection \<open>One error record (the body of the loop, lines 156 to 245)\<close>

text \<open>
  Lines 185 to 195, one round of the loop over the locations after the first:
  \<^verbatim>\<open>loc_other\<close> is a \<^verbatim>\<open>dict(...)\<close> copy of the template's location, filled in and
  appended as a deep copy to \<^verbatim>\<open>tmp_dict["other_locations"]\<close>.
\<close>

definition other_location :: "nat \<Rightarrow> xval \<Rightarrow> state \<Rightarrow> pyerr + state" where
  "other_location tmp_dict loc s =
     (let (s1, loc_other) =
            new_location (locations s ! i_location (issues s ! CODE_QUAL_ELEMENT)) s
      in rbind (attr loc ''@file'') (\<lambda>file.
         let s2 = set_path loc_other file s1
         in rbind (attr loc ''@line'') (\<lambda>l. rbind (py_int l) (\<lambda>line.
            let s3 = set_line loc_other line s2
            in rbind (attr loc ''@column'') (\<lambda>c. rbind (py_int c) (\<lambda>column.
               let s4 = set_column loc_other column s3;
                   s5 = (if i_other_locations (issues s4 ! tmp_dict) = None
                         then upd_issue tmp_dict (\<lambda>io. io\<lparr> i_other_locations := Some [] \<rparr>) s4
                         else s4);
                   (s6, cp) = deepcopy_location loc_other s5
               in Inr (upd_issue tmp_dict
                         (\<lambda>io. io\<lparr> i_other_locations :=
                                    Some ((case i_other_locations io of None \<Rightarrow> [] | Some as \<Rightarrow> as)
                                          @ [cp]) \<rparr>) s6)))))))"

text \<open>Line 184: \<^verbatim>\<open>for i in range(1, len(error["location"]))\<close>, here over the tail.\<close>

fun other_locations :: "nat \<Rightarrow> xval list \<Rightarrow> state \<Rightarrow> pyerr + state" where
  "other_locations tmp_dict [] s = Inr s"
| "other_locations tmp_dict (loc # rest) s =
     rbind (other_location tmp_dict loc s) (other_locations tmp_dict rest)"

text \<open>
  Lines 172 to 203: the path, line and column of the record, from the first of
  several locations or from the only one.
\<close>

definition locate :: "nat \<Rightarrow> xval \<Rightarrow> state \<Rightarrow> pyerr + state \<times> string \<times> int \<times> int" where
  "locate tmp_dict error s =
     rbind (getitem error ''location'') (\<lambda>location.
     case location of
       XList ls \<Rightarrow>
         (case ls of
            [] \<Rightarrow> Inl IndexError
          | loc0 # rest \<Rightarrow>
              rbind (contains ''@file0'' loc0) (\<lambda>has_file0.
              rbind (attr loc0 (if has_file0 then ''@file0'' else ''@file'')) (\<lambda>path.
              rbind (attr loc0 ''@line'') (\<lambda>l. rbind (py_int l) (\<lambda>line.
              rbind (attr loc0 ''@column'') (\<lambda>c. rbind (py_int c) (\<lambda>column.
              rbind (other_locations tmp_dict rest s) (\<lambda>s'.
              Inr (s', path, line, column)))))))))
     | _ \<Rightarrow>
         rbind (attr location ''@file'') (\<lambda>path.
         rbind (attr location ''@line'') (\<lambda>l. rbind (py_int l) (\<lambda>line.
         rbind (contains ''@column'' location) (\<lambda>has_column.
         if has_column
         then rbind (attr location ''@column'') (\<lambda>c. rbind (py_int c) (\<lambda>column.
              Inr (s, path, line, column)))
         else Inr (s, path, line, 0))))))"

text \<open>Lines 210 to 218, the body of \<^verbatim>\<open>if "@cwe" in error\<close>.\<close>

definition add_cwe :: "nat \<Rightarrow> xval \<Rightarrow> state \<Rightarrow> pyerr + state" where
  "add_cwe tmp_dict error s =
     (let s1 = upd_issue tmp_dict (\<lambda>io. io\<lparr> i_content := Some [] \<rparr>) s
      in rbind (attr error ''@cwe'') (\<lambda>cwe_id.
         let s2 = upd_issue tmp_dict
                    (\<lambda>io. io\<lparr> i_description := ''[CWE-'' @ cwe_id @ ''] '' @ i_description io \<rparr>) s1;
             msg = ''Refer to [CWE-'' @ cwe_id @ ''](https://cwe.mitre.org/data/definitions/''
                   @ cwe_id @ ''.html)''
         in Inr (upd_issue tmp_dict
                   (\<lambda>io. io\<lparr> i_content := map_option (\<lambda>d. d @ msg) (i_content io) \<rparr>) s2)))"

text \<open>Lines 230 to 238.\<close>

definition fingerprint_str :: "string \<Rightarrow> int \<Rightarrow> string \<Rightarrow> string \<Rightarrow> string" where
  "fingerprint_str path rounded rule codeline =
     path @ '':'' @ py_str rounded @ ''-'' @ rule @ ''-'' @ codeline"

text \<open>
  The body of the loop. The result is the new state and the address of the deep
  copy appended to \<^verbatim>\<open>dict_out\<close>, or \<open>None\<close> when the record is skipped.
\<close>

definition convert_error :: "pylib \<Rightarrow> state \<Rightarrow> xval \<Rightarrow> pyerr + state \<times> nat option" where
  "convert_error L s0 error =
     (let s = add_log DEBUG ''Processing -- %s'' s0
      in rbind (contains ''location'' error) (\<lambda>has_location.
         if \<not> has_location then Inr (s, None)
         else
           let (s1, tmp_dict) = new_issue (issues s ! CODE_QUAL_ELEMENT) s
           in rbind (attr error ''@id'') (\<lambda>rule.
              let s2 = upd_issue tmp_dict (\<lambda>io. io\<lparr> i_check_name := rule \<rparr>) s1
              in rbind (attr error ''@msg'') (\<lambda>msg.
                 let s3 = upd_issue tmp_dict (\<lambda>io. io\<lparr> i_description := msg \<rparr>) s2
                 in rbind (attr error ''@severity'') (\<lambda>sev.
                    rbind (get_codeclimate_category sev) (\<lambda>cat.
                    rbind (attr error ''@severity'') (\<lambda>sev2.
                    let cats = split_nl cat @ [sev2];
                        s4 = upd_issue tmp_dict (\<lambda>io. io\<lparr> i_categories := CatList cats \<rparr>) s3
                    in rbind (locate tmp_dict error s4) (\<lambda>(s5, path, line, column).
                       let s6 = set_path (i_location (issues s5 ! tmp_dict)) path s5;
                           s7 = set_line (i_location (issues s6 ! tmp_dict)) line s6;
                           s8 = set_column (i_location (issues s7 ! tmp_dict)) column s7
                       in rbind (contains ''@cwe'' error) (\<lambda>has_cwe.
                          rbind (if has_cwe then add_cwe tmp_dict error s8 else Inr s8) (\<lambda>s9.
                          let codeline = strip (getline L path line)
                          in rbind (round_line line) (\<lambda>rounded.
                             let fp = fingerprint_str path rounded rule codeline;
                                 s10 = add_log DEBUG (''Fingerprint string:'' @ [CHR 0x0A] @ ''  %s'') s9;
                                 s11 = upd_issue tmp_dict
                                         (\<lambda>io. io\<lparr> i_fingerprint := md5_hex fp \<rparr>) s10;
                                 (s12, cp) = deepcopy_issue tmp_dict s11
                             in Inr (s12, Some cp))))))))))))"

subsection \<open>The whole report\<close>

text \<open>Lines 154 to 245: the loop, with \<^verbatim>\<open>dict_out\<close> the addresses appended so far.\<close>

fun convert_errors :: "pylib \<Rightarrow> state \<Rightarrow> nat list \<Rightarrow> xval list \<Rightarrow> pyerr + state \<times> nat list" where
  "convert_errors L s dict_out [] = Inr (s, dict_out)"
| "convert_errors L s dict_out (error # rest) =
     rbind (convert_error L s error) (\<lambda>(s', r).
       convert_errors L s' (case r of None \<Rightarrow> dict_out | Some cp \<Rightarrow> dict_out @ [cp]) rest)"

text \<open>
  What \<^verbatim>\<open>__convert\<close> returns: \<^verbatim>\<open>True\<close> for an empty dictionary, otherwise the text
  of \<^verbatim>\<open>json.dumps(dict_out)\<close>.
\<close>

datatype retval = RetTrue | RetStr string

text \<open>\<^verbatim>\<open>__convert\<close> from line 131 on, for the parsed dictionary \<^verbatim>\<open>dict_in\<close>.\<close>

definition convert_dict :: "pylib \<Rightarrow> state \<Rightarrow> xval \<Rightarrow> pyerr + state \<times> retval" where
  "convert_dict L s dict_in =
     rbind (py_len dict_in) (\<lambda>n.
     if n = 0 then Inr (add_log INFO ''Empty file imported. Skipping...'' s, RetTrue)
     else
       rbind (getitem dict_in ''results'') (\<lambda>results.
       rbind (getitem results ''cppcheck'') (\<lambda>cppcheck.
       rbind (attr cppcheck ''@version'') (\<lambda>version.
       let s1 = (if str_less version ''1.82''
                 then add_log WARNING
                        ([CHR 0x0A] @ ''WARNING: This was tested against a newer version of CppCheck'') s
                 else s)
       in rbind (getitem results ''errors'') (\<lambda>errors.
          if \<not> is_dict errors
          then Inr (add_log WARNING ''Nothing to do'' s1, RetStr (json_dumps L (JList [])))
          else
            rbind (getitem errors ''error'') (\<lambda>err.
            let errs = (case err of XList es \<Rightarrow> es | _ \<Rightarrow> [err])
            in rbind (convert_errors L s1 [] errs) (\<lambda>(s2, dict_out).
               let s3 = (if length dict_out = 0 then add_log WARNING ''Result is empty'' s2
                         else s2)
               in Inr (s3, RetStr (json_dumps L (JList (map (dump_issue s3) dict_out)))))))))))"


subsection \<open>\<^verbatim>\<open>convert_file\<close> (lines 72 to 107)\<close>










section \<open>Invariants of the store and the two halves of a conversion\<close>

text \<open>
  The definitions of this section serve the proofs. \<open>template_ok\<close> holds of the state
  after the module is loaded and after every conversion: the template's outer
  dictionary is as written in the source and its nested dictionaries sit at address
  0. \<open>loc_valid\<close> says that a location dictionary can be read, \<open>loc_ok\<close> that it is
  moreover none of the template's dictionaries, \<open>out_ok\<close> the same for an issue with
  its locations. \<open>frame s s'\<close> says that from \<open>s\<close> to \<open>s'\<close> nothing changed in the
  nested dictionaries except those of the template, \<open>appended\<close> that they were only
  added to, \<open>issues_kept\<close> that the issue dictionaries of \<open>s\<close> are unchanged.

  The body of the loop is split for the proofs into reading the record
  (\<open>error_fields\<close>, which may raise and does not touch the store) and writing the store
  (\<open>write_issue\<close>, which cannot raise); \<open>issue_json\<close> is the value that
  \<^verbatim>\<open>json.dumps\<close> is given for the fields read.
\<close>

definition template_ok :: "state \<Rightarrow> bool" where
  "template_ok s \<longleftrightarrow>
     issues s \<noteq> [] \<and> issues s ! CODE_QUAL_ELEMENT = template_issue \<and>
     locations s \<noteq> [] \<and> l_positions (locations s ! 0) = 0 \<and>
     positionss s \<noteq> [] \<and> p_begin (positionss s ! 0) = 0 \<and>
     begins s \<noteq> []"

definition frame :: "state \<Rightarrow> state \<Rightarrow> bool" where
  "frame s s' \<longleftrightarrow>
     length (begins s) \<le> length (begins s') \<and>
     (\<forall>i<length (begins s). 0 < i \<longrightarrow> begins s' ! i = begins s ! i) \<and>
     length (positionss s) \<le> length (positionss s') \<and>
     (\<forall>i<length (positionss s). positionss s' ! i = positionss s ! i) \<and>
     length (locations s) \<le> length (locations s') \<and>
     (\<forall>i<length (locations s). 0 < i \<longrightarrow> locations s' ! i = locations s ! i)"

definition loc_valid :: "state \<Rightarrow> nat \<Rightarrow> bool" where
  "loc_valid s l \<longleftrightarrow>
     l < length (locations s) \<and>
     l_positions (locations s ! l) < length (positionss s) \<and>
     begin_of s l < length (begins s)"

definition loc_ok :: "state \<Rightarrow> nat \<Rightarrow> bool" where
  "loc_ok s l \<longleftrightarrow> loc_valid s l \<and> 0 < l \<and> 0 < begin_of s l"

definition others_of :: "issue_obj \<Rightarrow> nat list" where
  "others_of io = (case i_other_locations io of None \<Rightarrow> [] | Some as \<Rightarrow> as)"

definition out_ok :: "state \<Rightarrow> nat \<Rightarrow> bool" where
  "out_ok s a \<longleftrightarrow>
     a < length (issues s) \<and> loc_ok s (i_location (issues s ! a)) \<and>
     list_all (loc_ok s) (others_of (issues s ! a))"

definition loc_json :: "string \<times> int \<times> int \<Rightarrow> json" where
  "loc_json t = (case t of (file, line, column) \<Rightarrow>
     JDict [(''path'', JStr file),
            (''positions'', JDict [(''begin'', JDict [(''line'', JInt line), (''column'', JInt column)])])])"

definition loc_fields :: "xval \<Rightarrow> pyerr + string \<times> int \<times> int" where
  "loc_fields loc =
     rbind (attr loc ''@file'') (\<lambda>file.
     rbind (attr loc ''@line'') (\<lambda>l. rbind (py_int l) (\<lambda>line.
     rbind (attr loc ''@column'') (\<lambda>c. rbind (py_int c) (\<lambda>column.
     Inr (file, line, column))))))"

fun others_fields :: "xval list \<Rightarrow> pyerr + (string \<times> int \<times> int) list" where
  "others_fields [] = Inr []"
| "others_fields (loc # rest) =
     rbind (loc_fields loc) (\<lambda>t. rbind (others_fields rest) (\<lambda>ts. Inr (t # ts)))"

definition other_location_write :: "nat \<Rightarrow> string \<times> int \<times> int \<Rightarrow> state \<Rightarrow> state" where
  "other_location_write tmp_dict t s =
     (case t of (file, line, column) \<Rightarrow>
      let (s1, loc_other) =
            new_location (locations s ! i_location (issues s ! CODE_QUAL_ELEMENT)) s;
          s2 = set_path loc_other file s1;
          s3 = set_line loc_other line s2;
          s4 = set_column loc_other column s3;
          s5 = (if i_other_locations (issues s4 ! tmp_dict) = None
                then upd_issue tmp_dict (\<lambda>io. io\<lparr> i_other_locations := Some [] \<rparr>) s4
                else s4);
          (s6, cp) = deepcopy_location loc_other s5
      in upd_issue tmp_dict
           (\<lambda>io. io\<lparr> i_other_locations :=
                      Some ((case i_other_locations io of None \<Rightarrow> [] | Some as \<Rightarrow> as) @ [cp]) \<rparr>) s6)"

definition appended :: "state \<Rightarrow> state \<Rightarrow> bool" where
  "appended s s' \<longleftrightarrow>
     (\<exists>bs ps ls. s' = s\<lparr> begins := begins s @ bs, positionss := positionss s @ ps,
                           locations := locations s @ ls \<rparr>)"

definition issues_kept :: "state \<Rightarrow> state \<Rightarrow> bool" where
  "issues_kept s s' \<longleftrightarrow>
     length (issues s) \<le> length (issues s') \<and>
     (\<forall>i<length (issues s). issues s' ! i = issues s ! i)"

definition locate_fields ::
  "xval \<Rightarrow> pyerr + (string \<times> int \<times> int) \<times> (string \<times> int \<times> int) list" where
  "locate_fields error =
     rbind (getitem error ''location'') (\<lambda>location.
     case location of
       XList ls \<Rightarrow>
         (case ls of
            [] \<Rightarrow> Inl IndexError
          | loc0 # rest \<Rightarrow>
              rbind (contains ''@file0'' loc0) (\<lambda>has_file0.
              rbind (attr loc0 (if has_file0 then ''@file0'' else ''@file'')) (\<lambda>path.
              rbind (attr loc0 ''@line'') (\<lambda>l. rbind (py_int l) (\<lambda>line.
              rbind (attr loc0 ''@column'') (\<lambda>c. rbind (py_int c) (\<lambda>column.
              rbind (others_fields rest) (\<lambda>ts.
              Inr ((path, line, column), ts)))))))))
     | _ \<Rightarrow>
         rbind (attr location ''@file'') (\<lambda>path.
         rbind (attr location ''@line'') (\<lambda>l. rbind (py_int l) (\<lambda>line.
         rbind (contains ''@column'' location) (\<lambda>has_column.
         if has_column
         then rbind (attr location ''@column'') (\<lambda>c. rbind (py_int c) (\<lambda>column.
              Inr ((path, line, column), [])))
         else Inr ((path, line, 0), []))))))"

record fields =
  f_rule :: string
  f_msg :: string
  f_cats :: "string list"
  f_primary :: "string \<times> int \<times> int"
  f_others :: "(string \<times> int \<times> int) list"
  f_cwe :: "string option"
  f_rounded :: int

definition error_fields :: "xval \<Rightarrow> pyerr + fields option" where
  "error_fields error =
     rbind (contains ''location'' error) (\<lambda>has_location.
     if \<not> has_location then Inr None
     else
       rbind (attr error ''@id'') (\<lambda>rule.
       rbind (attr error ''@msg'') (\<lambda>msg.
       rbind (attr error ''@severity'') (\<lambda>sev.
       rbind (get_codeclimate_category sev) (\<lambda>cat.
       rbind (locate_fields error) (\<lambda>(p, ts).
       rbind (contains ''@cwe'' error) (\<lambda>has_cwe.
       rbind (if has_cwe then rbind (attr error ''@cwe'') (\<lambda>c. Inr (Some c)) else Inr None) (\<lambda>cwe.
       rbind (round_line (fst (snd p))) (\<lambda>rounded.
       Inr (Some \<lparr> f_rule = rule, f_msg = msg, f_cats = split_nl cat @ [sev], f_primary = p,
                    f_others = ts, f_cwe = cwe, f_rounded = rounded \<rparr>))))))))))"

definition cwe_write :: "nat \<Rightarrow> string \<Rightarrow> state \<Rightarrow> state" where
  "cwe_write tmp_dict cwe_id s =
     (let s1 = upd_issue tmp_dict (\<lambda>io. io\<lparr> i_content := Some [] \<rparr>) s;
          s2 = upd_issue tmp_dict
                 (\<lambda>io. io\<lparr> i_description := ''[CWE-'' @ cwe_id @ ''] '' @ i_description io \<rparr>) s1;
          msg = ''Refer to [CWE-'' @ cwe_id @ ''](https://cwe.mitre.org/data/definitions/''
                @ cwe_id @ ''.html)''
      in upd_issue tmp_dict
           (\<lambda>io. io\<lparr> i_content := map_option (\<lambda>d. d @ msg) (i_content io) \<rparr>) s2)"

definition fields_fingerprint :: "pylib \<Rightarrow> fields \<Rightarrow> string" where
  "fields_fingerprint L f =
     (case f_primary f of (path, line, column) \<Rightarrow>
        md5_hex (fingerprint_str path (f_rounded f) (f_rule f) (strip (getline L path line))))"

definition write_issue :: "pylib \<Rightarrow> fields \<Rightarrow> state \<Rightarrow> state \<times> nat" where
  "write_issue L f s =
     (case f_primary f of (path, line, column) \<Rightarrow>
      let (s1, tmp_dict) = new_issue (issues s ! CODE_QUAL_ELEMENT) s;
          s2 = upd_issue tmp_dict (\<lambda>io. io\<lparr> i_check_name := f_rule f \<rparr>) s1;
          s3 = upd_issue tmp_dict (\<lambda>io. io\<lparr> i_description := f_msg f \<rparr>) s2;
          s4 = upd_issue tmp_dict (\<lambda>io. io\<lparr> i_categories := CatList (f_cats f) \<rparr>) s3;
          s5 = fold (other_location_write tmp_dict) (f_others f) s4;
          s6 = set_path (i_location (issues s5 ! tmp_dict)) path s5;
          s7 = set_line (i_location (issues s6 ! tmp_dict)) line s6;
          s8 = set_column (i_location (issues s7 ! tmp_dict)) column s7;
          s9 = (case f_cwe f of None \<Rightarrow> s8 | Some cwe_id \<Rightarrow> cwe_write tmp_dict cwe_id s8);
          s10 = add_log DEBUG (''Fingerprint string:'' @ [CHR 0x0A] @ ''  %s'') s9;
          s11 = upd_issue tmp_dict (\<lambda>io. io\<lparr> i_fingerprint := fields_fingerprint L f \<rparr>) s10
      in deepcopy_issue tmp_dict s11)"

definition issue_json :: "pylib \<Rightarrow> fields \<Rightarrow> json" where
  "issue_json L f =
     JDict ([(''type'', JStr ''issue''),
             (''check_name'', JStr (f_rule f)),
             (''description'',
                JStr (case f_cwe f of None \<Rightarrow> f_msg f | Some c \<Rightarrow> ''[CWE-'' @ c @ ''] '' @ f_msg f)),
             (''categories'', JList (map JStr (f_cats f))),
             (''fingerprint'', JStr (fields_fingerprint L f)),
             (''location'', loc_json (f_primary f))]
            @ (if f_others f = [] then []
               else [(''other_locations'', JList (map loc_json (f_others f)))])
            @ (case f_cwe f of
                 None \<Rightarrow> []
               | Some c \<Rightarrow>
                   [(''content'',
                     JDict [(''data'',
                       JStr (''Refer to [CWE-'' @ c @ ''](https://cwe.mitre.org/data/definitions/''
                             @ c @ ''.html)''))])]))"

definition first_error :: "xval list \<Rightarrow> pyerr option" where
  "first_error errs =
     (case filter isl (map error_fields errs) of [] \<Rightarrow> None | r # _ \<Rightarrow> Some (projl r))"

definition issues_of :: "pylib \<Rightarrow> xval list \<Rightarrow> json list" where
  "issues_of L errs =
     concat (map (\<lambda>e. case error_fields e of Inr (Some f) \<Rightarrow> [issue_json L f] | _ \<Rightarrow> []) errs)"

section \<open>Reading the output\<close>

text \<open>
  A claim about an output issue is stated on the value handed to \<^verbatim>\<open>json.dumps\<close>:
  \<open>jpath\<close> follows keys into nested objects, \<open>None\<close> when a key is absent.
\<close>

fun jfield :: "string \<Rightarrow> json \<Rightarrow> json option" where
  "jfield k (JDict kvs) = map_of kvs k"
| "jfield k (JStr t) = None"
| "jfield k (JInt n) = None"
| "jfield k (JList js) = None"



definition spec_severity_level :: "string \<Rightarrow> string option" where
  "spec_severity_level sev =
     map_of [(''error'', ''critical''), (''warning'', ''major''), (''style'', ''minor''),
             (''performance'', ''minor''), (''portability'', ''minor''),
             (''information'', ''info'')] sev"




text \<open>
  The issue that a record yields when it is converted on its own in the freshly
  loaded module: none when the record is skipped or its conversion raises.
\<close>

definition converted_alone :: "pylib \<Rightarrow> xval \<Rightarrow> json list" where
  "converted_alone L error =
     (case convert_error L module_init error of
        Inl x \<Rightarrow> []
      | Inr (t, r) \<Rightarrow> (case r of None \<Rightarrow> [] | Some a \<Rightarrow> [dump_issue t a]))"



section \<open>Sample inputs\<close>

text \<open>
  The reports of the repository's tests, as \<^verbatim>\<open>xmltodict.parse\<close> returns them: one
  \<^verbatim>\<open>error\<close> element is a dictionary, several are a list; so it is with the
  \<^verbatim>\<open>location\<close> elements of an error. The source file \<^verbatim>\<open>four_lines.c\<close> of the tests has
  four lines; no other source file can be read in the sample environment.
\<close>

definition sample_report :: "xval \<Rightarrow> xval" where
  "sample_report errors =
     XDict [] [(''results'',
       XDict [(''version'', ''2'')]
         [(''cppcheck'', XDict [(''version'', ''1.90'')] []), (''errors'', errors)])]"

definition rec_warning :: xval where
  "rec_warning =
     XDict [(''id'', ''uninitMemberVar''), (''severity'', ''warning''), (''msg'', ''bad''),
            (''cwe'', ''123'')]
       [(''location'', XDict [(''file'', ''a.cpp''), (''line'', ''50''), (''column'', ''5'')] [])]"

definition rec_file0 :: xval where
  "rec_file0 =
     XDict [(''id'', ''cppCheckType''), (''severity'', ''error''), (''msg'', ''message'')]
       [(''location'',
          XDict [(''file0'', ''tests/cpp_src/Foo.cpp''), (''file'', ''tests/cpp_src/Foo.h''),
                 (''line'', ''3'')] [])]"

definition rec_file0_two :: xval where
  "rec_file0_two =
     XDict [(''id'', ''id''), (''severity'', ''error''), (''msg'', ''msg'')]
       [(''location'',
          XList [XDict [(''file0'', ''tests/cpp_src/four_lines.c''), (''file'', ''tests/cpp_src/Foo.h''),
                        (''line'', ''15''), (''column'', ''0'')] [],
                 XDict [(''file0'', ''tests/cpp_src/four_lines.c''), (''file'', ''tests/cpp_src/Foo.h''),
                        (''line'', ''17''), (''column'', ''0'')] []])]"

definition rec_three_locations :: xval where
  "rec_three_locations =
     XDict [(''id'', ''cppCheckType''), (''severity'', ''error''), (''msg'', ''message'')]
       [(''location'',
          XList [XDict [(''file'', ''tests/cpp_src/Foo.h''), (''line'', ''1'')] [],
                 XDict [(''file'', ''tests/cpp_src/Foo.h''), (''line'', ''2'')] [],
                 XDict [(''file'', ''tests/cpp_src/Foo.h''), (''line'', ''3''), (''column'', ''3'')] []])]"

definition rec_no_location :: xval where
  "rec_no_location =
     XDict [(''id'', ''missingInclude''), (''severity'', ''unheard-of''), (''msg'', ''message'')] []"

definition rec_unknown_severity :: xval where
  "rec_unknown_severity =
     XDict [(''id'', ''id''), (''severity'', ''unheard-of''), (''msg'', ''msg'')]
       [(''location'', XDict [(''file'', ''a.cpp''), (''line'', ''1''), (''column'', ''0'')] [])]"

definition rec_line5 :: xval where
  "rec_line5 =
     XDict [(''id'', ''id''), (''severity'', ''error''), (''msg'', ''msg'')]
       [(''location'',
          XDict [(''file'', ''tests/cpp_src/four_lines.c''), (''line'', ''5''), (''column'', ''0'')] [])]"

definition rec_line2 :: xval where
  "rec_line2 =
     XDict [(''id'', ''id''), (''severity'', ''error''), (''msg'', ''msg'')]
       [(''location'',
          XDict [(''file'', ''tests/cpp_src/four_lines.c''), (''line'', ''2''), (''column'', ''0'')] [])]"


definition rec_far_line :: xval where
  "rec_far_line =
     XDict [(''id'', ''id''), (''severity'', ''error''), (''msg'', ''msg'')]
       [(''location'',
          XDict [(''file'', ''a.cpp''), (''line'', ''100000000000000001''), (''column'', ''0'')] [])]"

definition sample_lib :: pylib where
  "sample_lib =
     \<lparr> xmltodict_parse = (\<lambda>xml_input. Inr (sample_report (XDict [] [(''error'', rec_warning)]))),
       json_dumps = (\<lambda>j. []),
       linecache_getlines =
         (\<lambda>filename.
            if filename = ''tests/cpp_src/four_lines.c''
            then [''int a;'' @ [CHR 0x0A], ''  int b;'' @ [CHR 0x0A], ''int c;'' @ [CHR 0x0A],
                  ''int d;'' @ [CHR 0x0A]]
            else []) \<rparr>"



text \<open>The issues expected for two of the sample records.\<close>

definition issue_warning :: json where
  "issue_warning =
     JDict [(''type'', JStr ''issue''),
            (''check_name'', JStr ''uninitMemberVar''),
            (''description'', JStr ''[CWE-123] bad''),
            (''categories'', JList [JStr ''Bug Risk'', JStr ''warning'']),
            (''fingerprint'', JStr (md5_hex ''a.cpp:50-uninitMemberVar-'')),
            (''location'',
               JDict [(''path'', JStr ''a.cpp''),
                      (''positions'',
                         JDict [(''begin'', JDict [(''line'', JInt 50), (''column'', JInt 5)])])]),
            (''content'',
               JDict [(''data'',
                  JStr ''Refer to [CWE-123](https://cwe.mitre.org/data/definitions/123.html)'')])]"

definition issue_file0_two :: json where
  "issue_file0_two =
     JDict [(''type'', JStr ''issue''),
            (''check_name'', JStr ''id''),
            (''description'', JStr ''msg''),
            (''categories'', JList [JStr ''Bug Risk'', JStr ''error'']),
            (''fingerprint'', JStr (md5_hex ''tests/cpp_src/four_lines.c:20-id-'')),
            (''location'',
               JDict [(''path'', JStr ''tests/cpp_src/four_lines.c''),
                      (''positions'',
                         JDict [(''begin'', JDict [(''line'', JInt 15), (''column'', JInt 0)])])]),
            (''other_locations'',
               JList [JDict [(''path'', JStr ''tests/cpp_src/Foo.h''),
                             (''positions'',
                                JDict [(''begin'',
                                   JDict [(''line'', JInt 17), (''column'', JInt 0)])])]])]"

section \<open>Proofs\<close>

lemma rbind_simps [simp]:
  "rbind (Inl e) f = Inl e"
  "rbind (Inr x) f = f x"
  by (simp_all add: rbind_def)

lemma frame_refl [simp]: "frame s s"
  by (simp add: frame_def)

lemma frame_trans:
  assumes "frame s t" "frame t u"
  shows "frame s u"
proof -
  have b: "begins u ! i = begins s ! i" if "i < length (begins s)" "0 < i" for i
  proof -
    have "begins t ! i = begins s ! i" using assms(1) that by (simp add: frame_def)
    moreover have "i < length (begins t)" using assms(1) that by (simp add: frame_def)
    then have "begins u ! i = begins t ! i" using assms(2) that by (simp add: frame_def)
    ultimately show ?thesis by simp
  qed
  have p: "positionss u ! i = positionss s ! i" if "i < length (positionss s)" for i
  proof -
    have "positionss t ! i = positionss s ! i" using assms(1) that by (simp add: frame_def)
    moreover have "i < length (positionss t)" using assms(1) that by (simp add: frame_def)
    then have "positionss u ! i = positionss t ! i" using assms(2) by (simp add: frame_def)
    ultimately show ?thesis by simp
  qed
  have l: "locations u ! i = locations s ! i" if "i < length (locations s)" "0 < i" for i
  proof -
    have "locations t ! i = locations s ! i" using assms(1) that by (simp add: frame_def)
    moreover have "i < length (locations t)" using assms(1) that by (simp add: frame_def)
    then have "locations u ! i = locations t ! i" using assms(2) that by (simp add: frame_def)
    ultimately show ?thesis by simp
  qed
  have len: "length (begins s) \<le> length (begins u)" "length (positionss s) \<le> length (positionss u)"
    "length (locations s) \<le> length (locations u)"
    using assms by (simp_all add: frame_def)
  show ?thesis
    unfolding frame_def using b p l len by simp
qed

lemma frame_loc_valid:
  assumes "frame s s'" "loc_ok s l"
  shows "locations s' ! l = locations s ! l"
    and "positionss s' ! l_positions (locations s ! l) = positionss s ! l_positions (locations s ! l)"
    and "begins s' ! begin_of s l = begins s ! begin_of s l"
    and "l < length (locations s')" and "l_positions (locations s ! l) < length (positionss s')"
    and "begin_of s l < length (begins s')"
  using assms by (simp_all add: frame_def loc_ok_def loc_valid_def)

lemma frame_begin_of:
  assumes "frame s s'" "loc_ok s l"
  shows "begin_of s' l = begin_of s l"
  using frame_loc_valid(1,2) [OF assms] by (simp add: begin_of_def)

lemma frame_loc_ok:
  assumes "frame s s'" "loc_ok s l"
  shows "loc_ok s' l" "dump_location s' l = dump_location s l"
proof -
  note v = frame_loc_valid [OF assms] and b = frame_begin_of [OF assms]
  show "loc_ok s' l"
    using assms(2) v b by (simp add: loc_ok_def loc_valid_def)
  show "dump_location s' l = dump_location s l"
    using v b by (simp add: dump_location_def)
qed

lemma template_loc_valid: "template_ok s \<Longrightarrow> loc_valid s 0"
  by (simp add: template_ok_def loc_valid_def begin_of_def)

lemma loc_ok_valid: "loc_ok s l \<Longrightarrow> loc_valid s l"
  by (simp add: loc_ok_def)

lemma begin_upd_all: "(b :: begin_obj)\<lparr> b_line := l, b_column := c \<rparr> = \<lparr> b_line = l, b_column = c \<rparr>"
  by (cases b) simp

lemma location_upd_path:
  "l_positions lo = p \<Longrightarrow> (lo :: location_obj)\<lparr> l_path := f \<rparr> = \<lparr> l_path = f, l_positions = p \<rparr>"
  by (cases lo) simp

lemma deepcopy_location_closed:
  "deepcopy_location a s =
     (s\<lparr> begins := begins s @ [begins s ! begin_of s a],
         positionss := positionss s @ [\<lparr> p_begin = length (begins s) \<rparr>],
         locations := locations s @ [\<lparr> l_path = l_path (locations s ! a),
                                       l_positions = length (positionss s) \<rparr>] \<rparr>,
      length (locations s))"
  unfolding deepcopy_location_def new_begin_def new_positions_def new_location_def Let_def begin_of_def
  by simp

lemma deepcopy_location_spec:
  assumes "deepcopy_location a s = (s', cp)" "template_ok s" "loc_valid s a"
  shows "template_ok s'" "frame s s'" "loc_ok s' cp" "dump_location s' cp = dump_location s a"
    "issues s' = issues s" "logs s' = logs s" "begins s' ! 0 = begins s ! 0"
    "l_path (locations s' ! 0) = l_path (locations s ! 0)"
proof -
  from assms(1) have s': "s' = s\<lparr> begins := begins s @ [begins s ! begin_of s a],
         positionss := positionss s @ [\<lparr> p_begin = length (begins s) \<rparr>],
         locations := locations s @ [\<lparr> l_path = l_path (locations s ! a),
                                       l_positions = length (positionss s) \<rparr>] \<rparr>"
    and cp: "cp = length (locations s)"
    by (simp_all add: deepcopy_location_closed)
  from assms(2) have ne: "begins s \<noteq> []" "positionss s \<noteq> []" "locations s \<noteq> []"
    by (simp_all add: template_ok_def)
  show "template_ok s'" using assms(2) by (simp add: s' template_ok_def nth_append)
  show "frame s s'" by (simp add: s' frame_def nth_append)
  show "loc_ok s' cp" using ne
    by (simp add: s' cp loc_ok_def loc_valid_def begin_of_def nth_append)
  show "dump_location s' cp = dump_location s a"
    by (simp add: s' cp dump_location_def begin_of_def nth_append)
  show "issues s' = issues s" by (simp add: s')
  show "logs s' = logs s" by (simp add: s')
  show "begins s' ! 0 = begins s ! 0" using ne by (simp add: s' nth_append)
  show "l_path (locations s' ! 0) = l_path (locations s ! 0)" using ne by (simp add: s' nth_append)
qed

lemma other_location_eq:
  "other_location tmp loc s = rbind (loc_fields loc) (\<lambda>t. Inr (other_location_write tmp t s))"
  unfolding other_location_def loc_fields_def other_location_write_def Let_def
  by (simp add: rbind_def split: sum.splits prod.splits)

lemma other_locations_eq:
  "other_locations tmp locs s =
     rbind (others_fields locs) (\<lambda>ts. Inr (fold (other_location_write tmp) ts s))"
proof (induction locs arbitrary: s)
  case Nil
  show ?case by simp
next
  case (Cons loc rest)
  show ?case
  proof (cases "loc_fields loc")
    case (Inl x)
    then show ?thesis by (simp add: other_location_eq)
  next
    case (Inr t)
    then show ?thesis
      by (cases "others_fields rest") (simp_all add: other_location_eq Cons.IH)
  qed
qed

lemma other_location_write_closed:
  assumes "template_ok s" "tmp < length (issues s)"
  shows "other_location_write tmp (file, line, column) s =
     s\<lparr> begins := (begins s)[0 := \<lparr> b_line = line, b_column = column \<rparr>]
                     @ [\<lparr> b_line = line, b_column = column \<rparr>],
        positionss := positionss s @ [\<lparr> p_begin = length (begins s) \<rparr>],
        locations := locations s @ [\<lparr> l_path = file, l_positions = 0 \<rparr>,
                                    \<lparr> l_path = file, l_positions = length (positionss s) \<rparr>],
        issues := (issues s)[tmp := (issues s ! tmp)
                     \<lparr> i_other_locations := Some (others_of (issues s ! tmp) @ [Suc (length (locations s))]) \<rparr>] \<rparr>"
  using assms
  unfolding other_location_write_def deepcopy_location_def new_begin_def new_positions_def
    new_location_def set_path_def set_line_def set_column_def upd_issue_def others_of_def
    template_ok_def begin_of_def Let_def CODE_QUAL_ELEMENT_def template_issue_def
  by (simp add: nth_append begin_upd_all location_upd_path split: option.splits)


lemma appended_refl [simp]: "appended s s"
  unfolding appended_def by (rule exI [of _ "[]"], rule exI [of _ "[]"], rule exI [of _ "[]"]) simp

lemma appended_trans:
  assumes "appended s t" "appended t u"
  shows "appended s u"
proof -
  from assms(1) obtain bs ps ls where
    t: "t = s\<lparr> begins := begins s @ bs, positionss := positionss s @ ps, locations := locations s @ ls \<rparr>"
    unfolding appended_def by blast
  from assms(2) obtain bs' ps' ls' where
    u: "u = t\<lparr> begins := begins t @ bs', positionss := positionss t @ ps', locations := locations t @ ls' \<rparr>"
    unfolding appended_def by blast
  have "u = s\<lparr> begins := begins s @ (bs @ bs'), positionss := positionss s @ (ps @ ps'),
               locations := locations s @ (ls @ ls') \<rparr>"
    by (simp add: t u)
  then show ?thesis unfolding appended_def by blast
qed

lemma appended_same:
  assumes "appended s s'"
  shows "issues s' = issues s" "logs s' = logs s"
    "length (begins s) \<le> length (begins s')" "length (positionss s) \<le> length (positionss s')"
    "length (locations s) \<le> length (locations s')"
    "i < length (begins s) \<Longrightarrow> begins s' ! i = begins s ! i"
    "i < length (positionss s) \<Longrightarrow> positionss s' ! i = positionss s ! i"
    "i < length (locations s) \<Longrightarrow> locations s' ! i = locations s ! i"
  using assms unfolding appended_def by (auto simp: nth_append)

lemma appended_frame: "appended s s' \<Longrightarrow> frame s s'"
  unfolding frame_def using appended_same(3-8) by blast

lemma appended_template_ok:
  assumes "appended s s'" "template_ok s"
  shows "template_ok s'"
proof -
  from assms(2) have ne: "0 < length (begins s)" "0 < length (positionss s)" "0 < length (locations s)"
    by (simp_all add: template_ok_def)
  have "locations s' ! 0 = locations s ! 0" "positionss s' ! 0 = positionss s ! 0"
    using appended_same(7,8) [OF assms(1)] ne by blast+
  moreover have "begins s' \<noteq> []" "positionss s' \<noteq> []" "locations s' \<noteq> []"
    using appended_same(3-5) [OF assms(1)] ne by auto
  ultimately show ?thesis
    using assms(2) appended_same(1) [OF assms(1)] by (simp add: template_ok_def)
qed

lemma appended_loc_valid:
  assumes "appended s s'" "loc_valid s l"
  shows "loc_valid s' l" "dump_location s' l = dump_location s l" "begin_of s' l = begin_of s l"
proof -
  from assms(2) have l: "l < length (locations s)"
    and p: "l_positions (locations s ! l) < length (positionss s)"
    and b: "begin_of s l < length (begins s)"
    by (simp_all add: loc_valid_def)
  have e1: "locations s' ! l = locations s ! l" using appended_same(8) [OF assms(1) l] .
  have e2: "positionss s' ! l_positions (locations s ! l) = positionss s ! l_positions (locations s ! l)"
    using appended_same(7) [OF assms(1) p] .
  show bo: "begin_of s' l = begin_of s l" by (simp add: begin_of_def e1 e2)
  have e3: "begins s' ! begin_of s l = begins s ! begin_of s l"
    using appended_same(6) [OF assms(1) b] .
  show "loc_valid s' l"
    using l p b appended_same(3-5) [OF assms(1)] by (simp add: loc_valid_def bo e1)
  show "dump_location s' l = dump_location s l"
    by (simp add: dump_location_def bo e1 e3)
qed

lemma deepcopy_location_appended: "appended s (fst (deepcopy_location a s))"
  unfolding appended_def deepcopy_location_closed by (simp, blast)

lemma frame_map_dump:
  assumes "frame s s'" "list_all (loc_ok s) as"
  shows "list_all (loc_ok s') as" "map (dump_location s') as = map (dump_location s) as"
  using assms frame_loc_ok by (induction as) auto

lemma other_location_write_spec:
  fixes s :: state and tmp :: nat and t :: "string \<times> int \<times> int"
  assumes ok: "template_ok s" and tmp: "tmp < length (issues s)" "tmp \<noteq> 0"
  defines "s' \<equiv> other_location_write tmp t s"
  defines "cp \<equiv> Suc (length (locations s))"
  shows "template_ok s'" "frame s s'" "length (issues s') = length (issues s)"
    "\<And>i. i \<noteq> tmp \<Longrightarrow> issues s' ! i = issues s ! i"
    "issues s' ! tmp = (issues s ! tmp)\<lparr> i_other_locations := Some (others_of (issues s ! tmp) @ [cp]) \<rparr>"
    "loc_ok s' cp" "dump_location s' cp = loc_json t" "logs s' = logs s"
proof -
  obtain pth ln col where t: "t = (pth, ln, col)" by (cases t) auto
  have s': "s' = s\<lparr> begins := (begins s)[0 := \<lparr> b_line = ln, b_column = col \<rparr>]
                     @ [\<lparr> b_line = ln, b_column = col \<rparr>],
        positionss := positionss s @ [\<lparr> p_begin = length (begins s) \<rparr>],
        locations := locations s @ [\<lparr> l_path = pth, l_positions = 0 \<rparr>,
                                    \<lparr> l_path = pth, l_positions = length (positionss s) \<rparr>],
        issues := (issues s)[tmp := (issues s ! tmp)
                     \<lparr> i_other_locations := Some (others_of (issues s ! tmp) @ [cp]) \<rparr>] \<rparr>"
    unfolding s'_def cp_def t by (rule other_location_write_closed [OF ok tmp(1)])
  from ok have ne: "begins s \<noteq> []" "positionss s \<noteq> []" "locations s \<noteq> []" "issues s \<noteq> []"
    and t0: "issues s ! 0 = template_issue" "l_positions (locations s ! 0) = 0"
      "p_begin (positionss s ! 0) = 0"
    by (simp_all add: template_ok_def CODE_QUAL_ELEMENT_def)
  show "template_ok s'"
    using ne t0 tmp by (simp add: s' template_ok_def CODE_QUAL_ELEMENT_def nth_append)
  show "frame s s'"
    by (simp add: s' frame_def nth_append)
  show "length (issues s') = length (issues s)" by (simp add: s')
  show "issues s' ! i = issues s ! i" if "i \<noteq> tmp" for i using that by (simp add: s')
  show "issues s' ! tmp = (issues s ! tmp)\<lparr> i_other_locations := Some (others_of (issues s ! tmp) @ [cp]) \<rparr>"
    using tmp by (simp add: s')
  show "loc_ok s' cp"
    using ne by (simp add: s' cp_def loc_ok_def loc_valid_def begin_of_def nth_append)
  show "dump_location s' cp = loc_json t"
    using ne by (simp add: s' cp_def t dump_location_def loc_json_def begin_of_def nth_append)
  show "logs s' = logs s" by (simp add: s')
qed

lemma others_write_spec:
  assumes "template_ok s" "tmp < length (issues s)" "tmp \<noteq> 0"
    "list_all (loc_ok s) (others_of (issues s ! tmp))"
  shows "let s' = fold (other_location_write tmp) ts s
         in template_ok s' \<and> frame s s' \<and> length (issues s') = length (issues s)
            \<and> (\<forall>i. i \<noteq> tmp \<longrightarrow> issues s' ! i = issues s ! i)
            \<and> logs s' = logs s
            \<and> list_all (loc_ok s') (others_of (issues s' ! tmp))
            \<and> map (dump_location s') (others_of (issues s' ! tmp))
                = map (dump_location s) (others_of (issues s ! tmp)) @ map loc_json ts
            \<and> (\<exists>os. issues s' ! tmp = (issues s ! tmp)\<lparr> i_other_locations := os \<rparr>)
            \<and> (i_other_locations (issues s' ! tmp) = None
                 \<longleftrightarrow> ts = [] \<and> i_other_locations (issues s ! tmp) = None)"
  using assms
proof (induction ts arbitrary: s)
  case Nil
  have "issues s ! tmp = (issues s ! tmp)\<lparr> i_other_locations := i_other_locations (issues s ! tmp) \<rparr>"
    by simp
  then have "\<exists>os. issues s ! tmp = (issues s ! tmp)\<lparr> i_other_locations := os \<rparr>" by blast
  with Nil show ?case by (simp add: Let_def)
next
  case (Cons t ts)
  define s1 where "s1 = other_location_write tmp t s"
  define cp where "cp = Suc (length (locations s))"
  note step = other_location_write_spec [OF Cons.prems(1-3), where t = t, folded s1_def cp_def]
  have o1: "others_of (issues s1 ! tmp) = others_of (issues s ! tmp) @ [cp]"
    by (simp add: step(5) others_of_def)
  have old1: "list_all (loc_ok s1) (others_of (issues s ! tmp))"
    and dump1: "map (dump_location s1) (others_of (issues s ! tmp))
                 = map (dump_location s) (others_of (issues s ! tmp))"
    using frame_map_dump [OF step(2) Cons.prems(4)] by simp_all
  have ok1: "list_all (loc_ok s1) (others_of (issues s1 ! tmp))"
    using old1 step(6) by (simp add: o1)
  have len1: "tmp < length (issues s1)" using Cons.prems(2) step(3) by simp
  define s' where "s' = fold (other_location_write tmp) ts s1"
  from Cons.IH [OF step(1) len1 Cons.prems(3) ok1]
  have ih: "template_ok s'" "frame s1 s'" "length (issues s') = length (issues s1)"
    "\<forall>i. i \<noteq> tmp \<longrightarrow> issues s' ! i = issues s1 ! i" "logs s' = logs s1"
    "list_all (loc_ok s') (others_of (issues s' ! tmp))"
    "map (dump_location s') (others_of (issues s' ! tmp))
       = map (dump_location s1) (others_of (issues s1 ! tmp)) @ map loc_json ts"
    "\<exists>os. issues s' ! tmp = (issues s1 ! tmp)\<lparr> i_other_locations := os \<rparr>"
    "i_other_locations (issues s' ! tmp) = None
       \<longleftrightarrow> ts = [] \<and> i_other_locations (issues s1 ! tmp) = None"
    unfolding Let_def s'_def by simp_all
  have f: "fold (other_location_write tmp) (t # ts) s = s'"
    by (simp add: s'_def s1_def)
  have a: "frame s s'" using frame_trans [OF step(2) ih(2)] .
  have b: "length (issues s') = length (issues s)" using ih(3) step(3) by simp
  have c: "\<forall>i. i \<noteq> tmp \<longrightarrow> issues s' ! i = issues s ! i" using ih(4) step(4) by simp
  have d: "logs s' = logs s" using ih(5) step(8) by simp
  have e: "map (dump_location s') (others_of (issues s' ! tmp))
            = map (dump_location s) (others_of (issues s ! tmp)) @ map loc_json (t # ts)"
    using ih(7) by (simp add: o1 dump1 step(7))
  from ih(8) obtain os where "issues s' ! tmp = (issues s1 ! tmp)\<lparr> i_other_locations := os \<rparr>" ..
  then have "issues s' ! tmp = (issues s ! tmp)\<lparr> i_other_locations := os \<rparr>"
    by (simp add: step(5))
  then have g: "\<exists>os. issues s' ! tmp = (issues s ! tmp)\<lparr> i_other_locations := os \<rparr>" ..
  have h: "i_other_locations (issues s' ! tmp) \<noteq> None"
    using ih(9) by (simp add: step(5))
  show ?case
    unfolding f Let_def using ih(1) a b c d ih(6) e g h by simp
qed

lemma locate_eq:
  "locate tmp error s =
     rbind (locate_fields error) (\<lambda>(p, ts). Inr (fold (other_location_write tmp) ts s, p))"
  unfolding locate_def locate_fields_def
  by (simp add: other_locations_eq rbind_def split: sum.splits xval.splits list.splits)

lemma add_cwe_eq:
  "add_cwe tmp error s = rbind (attr error ''@cwe'') (\<lambda>c. Inr (cwe_write tmp c s))"
  unfolding add_cwe_def cwe_write_def Let_def by simp

lemma convert_error_eq:
  "convert_error L s0 error =
     rbind (error_fields error) (\<lambda>r.
       case r of
         None \<Rightarrow> Inr (add_log DEBUG ''Processing -- %s'' s0, None)
       | Some f \<Rightarrow>
           (case write_issue L f (add_log DEBUG ''Processing -- %s'' s0) of
              (s', cp) \<Rightarrow> Inr (s', Some cp)))"
  unfolding convert_error_def error_fields_def write_issue_def fields_fingerprint_def
  by (simp add: locate_eq add_cwe_eq Let_def rbind_def new_issue_def
        split: sum.splits prod.splits option.splits)

lemma appended_map_valid:
  assumes "appended s s'" "list_all (loc_valid s) as"
  shows "list_all (loc_valid s') as" "map (dump_location s') as = map (dump_location s) as"
  using assms appended_loc_valid by (induction as) auto

lemma deepcopy_locations_spec:
  assumes "template_ok s" "list_all (loc_valid s) as"
  shows "case deepcopy_locations as s of
           (s', cs) \<Rightarrow> appended s s' \<and> list_all (loc_ok s') cs
                        \<and> map (dump_location s') cs = map (dump_location s) as"
  using assms
proof (induction as arbitrary: s)
  case Nil
  then show ?case by simp
next
  case (Cons a as)
  obtain s1 c where d1: "deepcopy_location a s = (s1, c)" by (cases "deepcopy_location a s")
  from Cons.prems(2) have va: "loc_valid s a" and vas: "list_all (loc_valid s) as" by simp_all
  note sp = deepcopy_location_spec [OF d1 Cons.prems(1) va]
  have ap1: "appended s s1" using deepcopy_location_appended [of s a] by (simp add: d1)
  have vas1: "list_all (loc_valid s1) as" and dm1: "map (dump_location s1) as = map (dump_location s) as"
    using appended_map_valid [OF ap1 vas] by simp_all
  obtain s2 cs where d2: "deepcopy_locations as s1 = (s2, cs)" by (cases "deepcopy_locations as s1")
  from Cons.IH [OF sp(1) vas1]
  have ih: "appended s1 s2" "list_all (loc_ok s2) cs"
    "map (dump_location s2) cs = map (dump_location s1) as"
    by (simp_all add: d2)
  have c2: "loc_ok s2 c" "dump_location s2 c = dump_location s1 c"
    using frame_loc_ok [OF appended_frame [OF ih(1)] sp(3)] by simp_all
  have "deepcopy_locations (a # as) s = (s2, c # cs)" by (simp add: d1 d2)
  moreover have "appended s s2" using appended_trans [OF ap1 ih(1)] .
  ultimately show ?case
    using ih(2,3) c2 dm1 sp(4) by simp
qed

lemma deepcopy_issue_spec:
  assumes ok: "template_ok s" and a: "a < length (issues s)"
    and vl: "loc_valid s (i_location (issues s ! a))"
    and vo: "list_all (loc_valid s) (others_of (issues s ! a))"
  shows "case deepcopy_issue a s of
           (s', cp) \<Rightarrow> cp = length (issues s) \<and> length (issues s') = Suc (length (issues s))
             \<and> out_ok s' cp \<and> dump_issue s' cp = dump_issue s a
             \<and> template_ok s' \<and> frame s s' \<and> issues_kept s s' \<and> logs s' = logs s
             \<and> locations s' ! 0 = locations s ! 0 \<and> begins s' ! 0 = begins s ! 0"
proof -
  define io where "io = issues s ! a"
  obtain s1 l where d1: "deepcopy_location (i_location io) s = (s1, l)"
    by (cases "deepcopy_location (i_location io) s")
  note sp = deepcopy_location_spec [OF d1 ok vl [folded io_def]]
  have ap1: "appended s s1" using deepcopy_location_appended [of s "i_location io"] by (simp add: d1)
  have vo1: "list_all (loc_valid s1) (others_of io)"
    and dm1: "map (dump_location s1) (others_of io) = map (dump_location s) (others_of io)"
    using appended_map_valid [OF ap1 vo [folded io_def]] by simp_all
  obtain s2 cs where d2: "deepcopy_locations (others_of io) s1 = (s2, cs)"
    by (cases "deepcopy_locations (others_of io) s1")
  from deepcopy_locations_spec [OF sp(1) vo1]
  have sp2: "appended s1 s2" "list_all (loc_ok s2) cs"
    "map (dump_location s2) cs = map (dump_location s1) (others_of io)"
    by (simp_all add: d2)
  have ap2: "appended s s2" using appended_trans [OF ap1 sp2(1)] .
  have l2: "loc_ok s2 l" "dump_location s2 l = dump_location s1 l"
    using frame_loc_ok [OF appended_frame [OF sp2(1)] sp(3)] by simp_all
  define others where "others = (case i_other_locations io of None \<Rightarrow> None | Some as \<Rightarrow> Some cs)"
  define s' where "s' = s2\<lparr> issues := issues s2 @ [io\<lparr> i_location := l, i_other_locations := others \<rparr>] \<rparr>"
  have dc: "deepcopy_issue a s = (s', length (issues s))"
  proof (cases "i_other_locations io")
    case None
    then have "others_of io = []" by (simp add: others_of_def)
    with d2 have "s2 = s1" by simp
    with None show ?thesis
      unfolding deepcopy_issue_def Let_def io_def [symmetric]
      by (simp add: d1 new_issue_def s'_def others_def appended_same(1) [OF ap1])
  next
    case (Some as)
    then have "others_of io = as" by (simp add: others_of_def)
    with d2 have "deepcopy_locations as s1 = (s2, cs)" by simp
    with Some show ?thesis
      unfolding deepcopy_issue_def Let_def io_def [symmetric]
      by (simp add: d1 new_issue_def s'_def others_def appended_same(1) [OF ap2])
  qed
  have is2: "issues s2 = issues s" using appended_same(1) [OF ap2] .
  have new: "issues s' ! length (issues s) = io\<lparr> i_location := l, i_other_locations := others \<rparr>"
    by (simp add: s'_def is2)
  have same: "begins s' = begins s2" "positionss s' = positionss s2" "locations s' = locations s2"
    "logs s' = logs s2"
    by (simp_all add: s'_def)
  have fr22: "frame s2 s'" by (simp add: frame_def same)
  have fr: "frame s s'" using frame_trans [OF appended_frame [OF ap2] fr22] .
  have lo: "loc_ok s' l" "dump_location s' l = dump_location s2 l"
    using frame_loc_ok [OF fr22 l2(1)] by simp_all
  have cso: "list_all (loc_ok s') cs" "map (dump_location s') cs = map (dump_location s2) cs"
    using frame_map_dump [OF fr22 sp2(2)] by simp_all
  have oth: "others_of (io\<lparr> i_location := l, i_other_locations := others \<rparr>)
              = (case i_other_locations io of None \<Rightarrow> [] | Some as \<Rightarrow> cs)"
    by (simp add: others_of_def others_def split: option.splits)
  have "out_ok s' (length (issues s))"
    unfolding out_ok_def new oth using lo(1) cso(1)
    by (simp add: s'_def is2 split: option.splits)
  moreover have "dump_issue s' (length (issues s)) = dump_issue s a"
  proof -
    have "dump_location s' l = dump_location s (i_location io)"
      using lo(2) l2(2) sp(4) by simp
    moreover have "map (dump_location s') cs = map (dump_location s) (others_of io)"
      using cso(2) sp2(3) dm1 by simp
    ultimately show ?thesis
      unfolding dump_issue_def new Let_def io_def [symmetric]
      by (simp add: others_def others_of_def split: option.splits)
  qed
  moreover have "template_ok s'"
    using appended_template_ok [OF ap2 ok] a
    by (simp add: template_ok_def s'_def is2 nth_append CODE_QUAL_ELEMENT_def)
  moreover have "issues_kept s s'"
    by (simp add: issues_kept_def s'_def is2 nth_append)
  moreover have "logs s' = logs s" using appended_same(2) [OF ap2] by (simp add: same)
  moreover have "locations s' ! 0 = locations s ! 0" "begins s' ! 0 = begins s ! 0"
    using appended_same(6,8) [OF ap2, of 0] ok by (simp_all add: same template_ok_def)
  moreover have "length (issues s') = Suc (length (issues s))" by (simp add: s'_def is2)
  ultimately show ?thesis
    using fr by (simp add: dc)
qed

lemma frame_issue:
  assumes "frame s s'" "out_ok s a" "a < length (issues s')" "issues s' ! a = issues s ! a"
  shows "out_ok s' a" "dump_issue s' a = dump_issue s a"
proof -
  from assms(2) have l: "loc_ok s (i_location (issues s ! a))"
    and o: "list_all (loc_ok s) (others_of (issues s ! a))"
    by (simp_all add: out_ok_def)
  note l' = frame_loc_ok [OF assms(1) l] and o' = frame_map_dump [OF assms(1) o]
  show "out_ok s' a" using l'(1) o'(1) assms(3,4) by (simp add: out_ok_def)
  have "map (dump_location s') (case i_other_locations (issues s ! a) of None \<Rightarrow> [] | Some as \<Rightarrow> as)
          = map (dump_location s) (case i_other_locations (issues s ! a) of None \<Rightarrow> [] | Some as \<Rightarrow> as)"
    using o'(2) by (simp add: others_of_def)
  then show "dump_issue s' a = dump_issue s a"
    using l'(2) by (simp add: dump_issue_def assms(4) Let_def split: option.splits)
qed

lemma set_primary_closed:
  assumes "template_ok s"
  shows "set_column 0 cno (set_line 0 lno (set_path 0 pth s)) =
           s\<lparr> locations := (locations s)[0 := \<lparr> l_path = pth, l_positions = 0 \<rparr>],
              begins := (begins s)[0 := \<lparr> b_line = lno, b_column = cno \<rparr>] \<rparr>"
  using assms
  unfolding set_path_def set_line_def set_column_def begin_of_def template_ok_def
  by (simp add: begin_upd_all location_upd_path)

lemma cwe_write_closed:
  assumes "tmp < length (issues s)"
  shows "cwe_write tmp c s =
     s\<lparr> issues := (issues s)[tmp := (issues s ! tmp)
          \<lparr> i_description := ''[CWE-'' @ c @ ''] '' @ i_description (issues s ! tmp),
            i_content := Some (''Refer to [CWE-'' @ c @ ''](https://cwe.mitre.org/data/definitions/''
                               @ c @ ''.html)'') \<rparr>] \<rparr>"
  using assms unfolding cwe_write_def upd_issue_def Let_def by simp

lemma write_issue_spec:
  assumes ok: "template_ok s"
  shows "case write_issue L f s of
           (s', cp) \<Rightarrow>
             template_ok s' \<and> frame s s' \<and> issues_kept s s' \<and> out_ok s' cp
             \<and> dump_issue s' cp = issue_json L f
             \<and> cp = Suc (length (issues s)) \<and> length (issues s') = Suc (Suc (length (issues s)))
             \<and> logs s' = logs s @ [(DEBUG, ''Fingerprint string:'' @ [CHR 0x0A] @ ''  %s'')]
             \<and> locations s' ! 0 = \<lparr> l_path = fst (f_primary f), l_positions = 0 \<rparr>
             \<and> begins s' ! 0 = \<lparr> b_line = fst (snd (f_primary f)), b_column = snd (snd (f_primary f)) \<rparr>"
proof -
  obtain pth lno cno where p: "f_primary f = (pth, lno, cno)" by (cases "f_primary f") auto
  define tmp where "tmp = length (issues s)"
  define obj4 where "obj4 = template_issue\<lparr> i_check_name := f_rule f, i_description := f_msg f,
                                             i_categories := CatList (f_cats f) \<rparr>"
  define s4 where "s4 = s\<lparr> issues := issues s @ [obj4] \<rparr>"
  from ok have ne: "issues s \<noteq> []" and t0: "issues s ! 0 = template_issue"
    by (simp_all add: template_ok_def CODE_QUAL_ELEMENT_def)
  have tmp0: "tmp \<noteq> 0" using ne by (simp add: tmp_def)
  have len4: "tmp < length (issues s4)" by (simp add: s4_def tmp_def)
  have at4: "issues s4 ! tmp = obj4" by (simp add: s4_def tmp_def)
  have ok4: "template_ok s4"
    using ok by (simp add: template_ok_def s4_def nth_append CODE_QUAL_ELEMENT_def)
  have fr4: "frame s s4" by (simp add: frame_def s4_def)
  have o4: "list_all (loc_ok s4) (others_of (issues s4 ! tmp))"
    by (simp add: at4 obj4_def others_of_def template_issue_def)
  define s5 where "s5 = fold (other_location_write tmp) (f_others f) s4"
  from others_write_spec [OF ok4 len4 tmp0 o4, of "f_others f"]
  have l5: "template_ok s5" "frame s4 s5" "length (issues s5) = length (issues s4)"
    "\<forall>i. i \<noteq> tmp \<longrightarrow> issues s5 ! i = issues s4 ! i" "logs s5 = logs s4"
    "list_all (loc_ok s5) (others_of (issues s5 ! tmp))"
    "map (dump_location s5) (others_of (issues s5 ! tmp))
       = map (dump_location s4) (others_of (issues s4 ! tmp)) @ map loc_json (f_others f)"
    "\<exists>os. issues s5 ! tmp = (issues s4 ! tmp)\<lparr> i_other_locations := os \<rparr>"
    "i_other_locations (issues s5 ! tmp) = None
       \<longleftrightarrow> f_others f = [] \<and> i_other_locations (issues s4 ! tmp) = None"
    unfolding Let_def s5_def by simp_all
  from l5(8) obtain os where obj5: "issues s5 ! tmp = obj4\<lparr> i_other_locations := os \<rparr>"
    by (auto simp: at4)
  have os: "os = None \<longleftrightarrow> f_others f = []"
    using l5(9) by (simp add: obj5 at4 obj4_def template_issue_def)
  have dumps5: "map (dump_location s5) (case os of None \<Rightarrow> [] | Some as \<Rightarrow> as) = map loc_json (f_others f)"
    using l5(7) by (simp add: obj5 at4 others_of_def obj4_def template_issue_def)
  have oks5: "list_all (loc_ok s5) (case os of None \<Rightarrow> [] | Some as \<Rightarrow> as)"
    using l5(6) by (simp add: obj5 others_of_def)
  have len5: "tmp < length (issues s5)" using len4 l5(3) by simp
  have loc5: "i_location (issues s5 ! tmp) = 0"
    by (simp add: obj5 obj4_def template_issue_def)
  define s8 where "s8 = s5\<lparr> locations := (locations s5)[0 := \<lparr> l_path = pth, l_positions = 0 \<rparr>],
                              begins := (begins s5)[0 := \<lparr> b_line = lno, b_column = cno \<rparr>] \<rparr>"
  have s8: "set_column 0 cno (set_line 0 lno (set_path 0 pth s5)) = s8"
    unfolding s8_def by (rule set_primary_closed [OF l5(1)])
  have fr58: "frame s5 s8" by (simp add: frame_def s8_def)
  from l5(1) have ne5: "locations s5 \<noteq> []" "positionss s5 \<noteq> []" "begins s5 \<noteq> []"
    "p_begin (positionss s5 ! 0) = 0"
    by (simp_all add: template_ok_def)
  have ok8: "template_ok s8"
    using l5(1) by (simp add: template_ok_def s8_def)
  have is8: "issues s8 = issues s5" "logs s8 = logs s5" by (simp_all add: s8_def)
  have d80: "dump_location s8 0 = loc_json (pth, lno, cno)"
    using ne5 by (simp add: dump_location_def loc_json_def s8_def begin_of_def)
  have v80: "loc_valid s8 0" using template_loc_valid [OF ok8] .
  have t80: "locations s8 ! 0 = \<lparr> l_path = pth, l_positions = 0 \<rparr>"
    "begins s8 ! 0 = \<lparr> b_line = lno, b_column = cno \<rparr>"
    using ne5 by (simp_all add: s8_def)
  note o8 = frame_map_dump [OF fr58 oks5]
  define obj11 where "obj11 = obj4\<lparr> i_other_locations := os,
       i_description := (case f_cwe f of None \<Rightarrow> f_msg f | Some c \<Rightarrow> ''[CWE-'' @ c @ ''] '' @ f_msg f),
       i_content := (case f_cwe f of None \<Rightarrow> None
          | Some c \<Rightarrow> Some (''Refer to [CWE-'' @ c @ ''](https://cwe.mitre.org/data/definitions/''
                               @ c @ ''.html)'')),
       i_fingerprint := fields_fingerprint L f \<rparr>"
  define s11 where "s11 = s8\<lparr> issues := (issues s5)[tmp := obj11],
       logs := logs s5 @ [(DEBUG, ''Fingerprint string:'' @ [CHR 0x0A] @ ''  %s'')] \<rparr>"
  have w: "write_issue L f s = deepcopy_issue tmp s11"
  proof -
    have a: "upd_issue tmp (\<lambda>io. io\<lparr>i_categories := CatList (f_cats f)\<rparr>)
              (upd_issue tmp (\<lambda>io. io\<lparr>i_description := f_msg f\<rparr>)
                (upd_issue tmp (\<lambda>io. io\<lparr>i_check_name := f_rule f\<rparr>)
                  (s\<lparr>issues := issues s @ [issues s ! CODE_QUAL_ELEMENT]\<rparr>))) = s4"
      by (simp add: upd_issue_def s4_def obj4_def tmp_def CODE_QUAL_ELEMENT_def t0)
    have b: "(case f_cwe f of None \<Rightarrow> s8 | Some c \<Rightarrow> cwe_write tmp c s8)
              = s8\<lparr> issues := (issues s5)[tmp := obj4\<lparr> i_other_locations := os,
                   i_description := (case f_cwe f of None \<Rightarrow> f_msg f | Some c \<Rightarrow> ''[CWE-'' @ c @ ''] '' @ f_msg f),
                   i_content := (case f_cwe f of None \<Rightarrow> None
                     | Some c \<Rightarrow> Some (''Refer to [CWE-'' @ c @ ''](https://cwe.mitre.org/data/definitions/''
                               @ c @ ''.html)''))\<rparr>] \<rparr>"
    proof (cases "f_cwe f")
      case None
      have "(issues s5)[tmp := obj4\<lparr> i_other_locations := os, i_description := f_msg f, i_content := None \<rparr>]
             = issues s5"
        using len5 by (simp add: list_update_same_conv obj5 obj4_def template_issue_def)
      with None show ?thesis by (simp add: is8 [symmetric])
    next
      case (Some c)
      have "tmp < length (issues s8)" using len5 by (simp add: is8)
      from cwe_write_closed [OF this] Some show ?thesis
        by (simp add: is8 obj5 obj4_def)
    qed
    have iss: "\<And>a v t. issues (set_path a v t) = issues t"
      "\<And>a v t. issues (set_line a v t) = issues t"
      by (simp_all add: set_path_def set_line_def)
    show ?thesis
    proof (cases "f_cwe f")
      case None
      with b have b': "s8 = s8\<lparr> issues := (issues s5)[tmp := obj4\<lparr> i_other_locations := os,
                   i_description := f_msg f, i_content := None \<rparr>] \<rparr>"
        by simp
      have "write_issue L f s =
              deepcopy_issue tmp
                (upd_issue tmp (\<lambda>io. io\<lparr> i_fingerprint := fields_fingerprint L f \<rparr>)
                  (add_log DEBUG (''Fingerprint string:'' @ [CHR 0x0A] @ ''  %s'') s8))"
        unfolding write_issue_def p Let_def new_issue_def
        by (simp add: None tmp_def [symmetric] a s5_def [symmetric] iss loc5 s8 is8)
      also have "upd_issue tmp (\<lambda>io. io\<lparr> i_fingerprint := fields_fingerprint L f \<rparr>)
                  (add_log DEBUG (''Fingerprint string:'' @ [CHR 0x0A] @ ''  %s'') s8) = s11"
        using len5
        by (subst b') (simp add: None add_log_def upd_issue_def s11_def obj11_def is8)
      finally show ?thesis .
    next
      case (Some c)
      with b have b': "cwe_write tmp c s8 = s8\<lparr> issues := (issues s5)[tmp := obj4\<lparr> i_other_locations := os,
                   i_description := ''[CWE-'' @ c @ ''] '' @ f_msg f,
                   i_content := Some (''Refer to [CWE-'' @ c @ ''](https://cwe.mitre.org/data/definitions/''
                               @ c @ ''.html)'') \<rparr>] \<rparr>"
        by simp
      have "write_issue L f s =
              deepcopy_issue tmp
                (upd_issue tmp (\<lambda>io. io\<lparr> i_fingerprint := fields_fingerprint L f \<rparr>)
                  (add_log DEBUG (''Fingerprint string:'' @ [CHR 0x0A] @ ''  %s'') (cwe_write tmp c s8)))"
        unfolding write_issue_def p Let_def new_issue_def
        by (simp add: Some tmp_def [symmetric] a s5_def [symmetric] iss loc5 s8 is8)
      also have "upd_issue tmp (\<lambda>io. io\<lparr> i_fingerprint := fields_fingerprint L f \<rparr>)
                  (add_log DEBUG (''Fingerprint string:'' @ [CHR 0x0A] @ ''  %s'') (cwe_write tmp c s8)) = s11"
        using len5
        by (simp add: b' Some add_log_def upd_issue_def s11_def obj11_def is8)
      finally show ?thesis .
    qed
  qed
  have ok11: "template_ok s11"
    using ok8 l5(1) tmp0 by (simp add: template_ok_def s11_def CODE_QUAL_ELEMENT_def)
  have len11: "tmp < length (issues s11)" using len5 by (simp add: s11_def)
  have at11: "issues s11 ! tmp = obj11" using len5 by (simp add: s11_def)
  have fr811: "frame s8 s11" by (simp add: frame_def s11_def)
  have oth11: "others_of obj11 = (case os of None \<Rightarrow> [] | Some as \<Rightarrow> as)"
    by (simp add: obj11_def others_of_def)
  have loc11: "i_location obj11 = 0" by (simp add: obj11_def obj4_def template_issue_def)
  note o11 = frame_map_dump [OF fr811 o8(1)]
  have v11: "loc_valid s11 (i_location (issues s11 ! tmp))"
    using template_loc_valid [OF ok11] by (simp add: at11 loc11)
  have vo11: "list_all (loc_valid s11) (others_of (issues s11 ! tmp))"
    using o11(1) by (simp add: at11 oth11 list_all_iff loc_ok_valid)
  have d110: "dump_location s11 0 = loc_json (pth, lno, cno)"
    using d80 by (simp add: dump_location_def s11_def begin_of_def)
  have dm11: "map (dump_location s11) (case os of None \<Rightarrow> [] | Some as \<Rightarrow> as) = map loc_json (f_others f)"
    using o11(2) o8(2) dumps5 by simp
  have dump11: "dump_issue s11 tmp = issue_json L f"
  proof (cases os)
    case None
    with os have "f_others f = []" by simp
    with None show ?thesis
      unfolding dump_issue_def issue_json_def Let_def at11
      by (simp add: obj11_def obj4_def template_issue_def dump_cats_def d110 p split: option.splits)
  next
    case (Some as)
    with os have "f_others f \<noteq> []" by simp
    moreover from dm11 Some have "map (dump_location s11) as = map loc_json (f_others f)" by simp
    ultimately show ?thesis
      unfolding dump_issue_def issue_json_def Let_def at11
      by (simp add: Some obj11_def obj4_def template_issue_def dump_cats_def d110 p split: option.splits)
  qed
  obtain s' cp where dc: "deepcopy_issue tmp s11 = (s', cp)" by (cases "deepcopy_issue tmp s11")
  note fin0 = deepcopy_issue_spec [OF ok11 len11 v11 vo11, unfolded dc prod.case]
  from fin0 have fin: "cp = length (issues s11)" "length (issues s') = Suc (length (issues s11))"
    "out_ok s' cp" "dump_issue s' cp = dump_issue s11 tmp" "template_ok s'" "frame s11 s'"
    "issues_kept s11 s'" "logs s' = logs s11" "locations s' ! 0 = locations s11 ! 0"
    "begins s' ! 0 = begins s11 ! 0"
    by blast+
  have li11: "length (issues s11) = Suc (length (issues s))"
    using l5(3) by (simp add: s11_def s4_def)
  have fr: "frame s s'"
    using frame_trans [OF fr4 frame_trans [OF l5(2) frame_trans [OF fr58 frame_trans [OF fr811 fin(6)]]]] .
  have kept: "issues_kept s s'"
  proof -
    have "issues s' ! i = issues s ! i" if "i < length (issues s)" for i
    proof -
      from that have i: "i \<noteq> tmp" "i < length (issues s11)" by (simp_all add: tmp_def li11)
      have "issues s' ! i = issues s11 ! i" using fin(7) i(2) by (simp add: issues_kept_def)
      also have "\<dots> = issues s5 ! i" using i(1) by (simp add: s11_def)
      also have "\<dots> = issues s4 ! i" using l5(4) i(1) by simp
      also have "\<dots> = issues s ! i" using that by (simp add: s4_def nth_append)
      finally show ?thesis .
    qed
    then show ?thesis using fin(2) li11 by (simp add: issues_kept_def)
  qed
  have lg: "logs s' = logs s @ [(DEBUG, ''Fingerprint string:'' @ [CHR 0x0A] @ ''  %s'')]"
    using fin(8) l5(5) by (simp add: s11_def s4_def)
  have tl: "locations s' ! 0 = \<lparr> l_path = pth, l_positions = 0 \<rparr>"
    "begins s' ! 0 = \<lparr> b_line = lno, b_column = cno \<rparr>"
    using fin(9,10) t80 by (simp_all add: s11_def)
  show ?thesis
    unfolding w dc
    using fin(1-5) fr kept lg tl dump11 li11 by (simp add: p)
qed

lemma convert_error_Inl:
  "error_fields e = Inl x \<Longrightarrow> convert_error L s e = Inl x"
  by (simp add: convert_error_eq)

lemma convert_error_None:
  "error_fields e = Inr None \<Longrightarrow>
     convert_error L s e = Inr (add_log DEBUG ''Processing -- %s'' s, None)"
  by (simp add: convert_error_eq)

lemma convert_error_Some:
  assumes f: "error_fields e = Inr (Some f)" and ok: "template_ok s"
  shows "\<exists>s'. convert_error L s e = Inr (s', Some (Suc (length (issues s))))
           \<and> template_ok s' \<and> frame s s' \<and> issues_kept s s'
           \<and> out_ok s' (Suc (length (issues s)))
           \<and> dump_issue s' (Suc (length (issues s))) = issue_json L f
           \<and> logs s' = logs s @ [(DEBUG, ''Processing -- %s''),
                                   (DEBUG, ''Fingerprint string:'' @ [CHR 0x0A] @ ''  %s'')]
           \<and> locations s' ! 0 = \<lparr> l_path = fst (f_primary f), l_positions = 0 \<rparr>
           \<and> begins s' ! 0 = \<lparr> b_line = fst (snd (f_primary f)), b_column = snd (snd (f_primary f)) \<rparr>"
proof -
  define s0 where "s0 = add_log DEBUG ''Processing -- %s'' s"
  have ok0: "template_ok s0" using ok by (simp add: s0_def add_log_def template_ok_def)
  have same: "issues s0 = issues s" "begins s0 = begins s" "positionss s0 = positionss s"
    "locations s0 = locations s" "logs s0 = logs s @ [(DEBUG, ''Processing -- %s'')]"
    by (simp_all add: s0_def add_log_def)
  obtain s' cp where w: "write_issue L f s0 = (s', cp)" by (cases "write_issue L f s0")
  note sp = write_issue_spec [OF ok0, of L f, unfolded w prod.case]
  from sp have sp': "template_ok s'" "frame s0 s'" "issues_kept s0 s'" "out_ok s' cp"
    "dump_issue s' cp = issue_json L f" "cp = Suc (length (issues s0))"
    "logs s' = logs s0 @ [(DEBUG, ''Fingerprint string:'' @ [CHR 0x0A] @ ''  %s'')]"
    "locations s' ! 0 = \<lparr> l_path = fst (f_primary f), l_positions = 0 \<rparr>"
    "begins s' ! 0 = \<lparr> b_line = fst (snd (f_primary f)), b_column = snd (snd (f_primary f)) \<rparr>"
    by blast+
  have c: "convert_error L s e = Inr (s', Some cp)"
    by (simp add: convert_error_eq f s0_def [symmetric] w)
  have fr: "frame s s'" using sp'(2) by (simp add: frame_def same)
  have ik: "issues_kept s s'" using sp'(3) by (simp add: issues_kept_def same)
  show ?thesis
    using c sp'(1,4,5,7,8,9) fr ik by (simp add: sp'(6) same)
qed

lemma issues_kept_out:
  assumes "frame s s'" "issues_kept s s'" "list_all (out_ok s) as"
  shows "list_all (out_ok s') as" "map (dump_issue s') as = map (dump_issue s) as"
proof -
  have "out_ok s' a \<and> dump_issue s' a = dump_issue s a" if "out_ok s a" for a
  proof -
    from that have "a < length (issues s)" by (simp add: out_ok_def)
    with assms(2) have "a < length (issues s')" "issues s' ! a = issues s ! a"
      by (simp_all add: issues_kept_def)
    with frame_issue [OF assms(1) that] show ?thesis by simp
  qed
  with assms(3) show "list_all (out_ok s') as" "map (dump_issue s') as = map (dump_issue s) as"
    by (simp_all add: list_all_iff)
qed

lemma issues_kept_trans: "issues_kept s t \<Longrightarrow> issues_kept t u \<Longrightarrow> issues_kept s u"
  by (simp add: issues_kept_def)

lemma first_error_Cons:
  "first_error (e # es) = (case error_fields e of Inl x \<Rightarrow> Some x | Inr r \<Rightarrow> first_error es)"
  by (simp add: first_error_def split: sum.splits)

lemma first_error_Nil [simp]: "first_error [] = None"
  by (simp add: first_error_def)


lemma convert_errors_ok:
  assumes "first_error errs = None" "template_ok s" "list_all (out_ok s) dict_out"
  shows "\<exists>s' outs. convert_errors L s dict_out errs = Inr (s', outs)
           \<and> template_ok s' \<and> frame s s' \<and> issues_kept s s' \<and> list_all (out_ok s') outs
           \<and> map (dump_issue s') outs = map (dump_issue s) dict_out @ issues_of L errs
           \<and> filter (\<lambda>r. fst r \<noteq> DEBUG) (logs s') = filter (\<lambda>r. fst r \<noteq> DEBUG) (logs s)"
  using assms
proof (induction errs arbitrary: s dict_out)
  case Nil
  then show ?case by (simp add: issues_of_def issues_kept_def)
next
  case (Cons e es)
  from Cons.prems(1) obtain r where r: "error_fields e = Inr r" and fe: "first_error es = None"
    by (cases "error_fields e") (simp_all add: first_error_Cons)
  show ?case
  proof (cases r)
    case None
    define s1 where "s1 = add_log DEBUG ''Processing -- %s'' s"
    have c: "convert_error L s e = Inr (s1, None)"
      using r None by (simp add: convert_error_None s1_def)
    have ok1: "template_ok s1" using Cons.prems(2) by (simp add: s1_def add_log_def template_ok_def)
    have fr1: "frame s s1" by (simp add: s1_def add_log_def frame_def)
    have ik1: "issues_kept s s1" by (simp add: s1_def add_log_def issues_kept_def)
    note o1 = issues_kept_out [OF fr1 ik1 Cons.prems(3)]
    from Cons.IH [OF fe ok1 o1(1)] obtain s' outs where
      ih: "convert_errors L s1 dict_out es = Inr (s', outs)" "template_ok s'" "frame s1 s'"
        "issues_kept s1 s'" "list_all (out_ok s') outs"
        "map (dump_issue s') outs = map (dump_issue s1) dict_out @ issues_of L es"
        "filter (\<lambda>r. fst r \<noteq> DEBUG) (logs s') = filter (\<lambda>r. fst r \<noteq> DEBUG) (logs s1)"
      by blast
    have "convert_errors L s dict_out (e # es) = Inr (s', outs)" by (simp add: c ih(1))
    moreover have "frame s s'" using frame_trans [OF fr1 ih(3)] .
    moreover have "issues_kept s s'" using issues_kept_trans [OF ik1 ih(4)] .
    moreover have "map (dump_issue s') outs = map (dump_issue s) dict_out @ issues_of L (e # es)"
      using ih(6) o1(2) r None by (simp add: issues_of_def)
    moreover have "filter (\<lambda>r. fst r \<noteq> DEBUG) (logs s') = filter (\<lambda>r. fst r \<noteq> DEBUG) (logs s)"
      using ih(7) by (simp add: s1_def add_log_def)
    ultimately show ?thesis using ih(2,5) by blast
  next
    case (Some f)
    with r have rf: "error_fields e = Inr (Some f)" by simp
    define cp where "cp = Suc (length (issues s))"
    from convert_error_Some [OF rf Cons.prems(2), of L, folded cp_def] obtain s1 where
      c: "convert_error L s e = Inr (s1, Some cp)" and ok1: "template_ok s1" and fr1: "frame s s1"
      and ik1: "issues_kept s s1" and oc: "out_ok s1 cp" and dc: "dump_issue s1 cp = issue_json L f"
      and lg: "logs s1 = logs s @ [(DEBUG, ''Processing -- %s''),
                                   (DEBUG, ''Fingerprint string:'' @ [CHR 0x0A] @ ''  %s'')]"
      by blast
    note o1 = issues_kept_out [OF fr1 ik1 Cons.prems(3)]
    have o1': "list_all (out_ok s1) (dict_out @ [cp])" using o1(1) oc by simp
    from Cons.IH [OF fe ok1 o1'] obtain s' outs where
      ih: "convert_errors L s1 (dict_out @ [cp]) es = Inr (s', outs)" "template_ok s'" "frame s1 s'"
        "issues_kept s1 s'" "list_all (out_ok s') outs"
        "map (dump_issue s') outs = map (dump_issue s1) (dict_out @ [cp]) @ issues_of L es"
        "filter (\<lambda>r. fst r \<noteq> DEBUG) (logs s') = filter (\<lambda>r. fst r \<noteq> DEBUG) (logs s1)"
      by blast
    have "convert_errors L s dict_out (e # es) = Inr (s', outs)" by (simp add: c ih(1))
    moreover have "frame s s'" using frame_trans [OF fr1 ih(3)] .
    moreover have "issues_kept s s'" using issues_kept_trans [OF ik1 ih(4)] .
    moreover have "map (dump_issue s') outs = map (dump_issue s) dict_out @ issues_of L (e # es)"
      using ih(6) o1(2) rf dc by (simp add: issues_of_def)
    moreover have "filter (\<lambda>r. fst r \<noteq> DEBUG) (logs s') = filter (\<lambda>r. fst r \<noteq> DEBUG) (logs s)"
      using ih(7) by (simp add: lg)
    ultimately show ?thesis using ih(2,5) by blast
  qed
qed

lemma template_ok_init: "template_ok module_init"
  by (simp add: template_ok_def module_init_def CODE_QUAL_ELEMENT_def template_issue_def)

lemma fields_rec_warning:
  "error_fields rec_warning =
     Inr (Some \<lparr> f_rule = ''uninitMemberVar'', f_msg = ''bad'', f_cats = [''Bug Risk'', ''warning''],
                  f_primary = (''a.cpp'', 50, 5), f_others = [], f_cwe = Some ''123'',
                  f_rounded = 50 \<rparr>)"
  by code_simp


lemma fields_rec_file0_two:
  "error_fields rec_file0_two =
     Inr (Some \<lparr> f_rule = ''id'', f_msg = ''msg'', f_cats = [''Bug Risk'', ''error''],
                  f_primary = (''tests/cpp_src/four_lines.c'', 15, 0),
                  f_others = [(''tests/cpp_src/Foo.h'', 17, 0)], f_cwe = None, f_rounded = 20 \<rparr>)"
  by code_simp

lemma fields_rec_three_locations:
  "error_fields rec_three_locations = Inl (KeyError ''@column'')"
  by code_simp

lemma fields_rec_no_location: "error_fields rec_no_location = Inr None"
  by code_simp

lemma fields_rec_unknown_severity:
  "error_fields rec_unknown_severity = Inl (KeyError ''unheard-of'')"
  by code_simp

lemma fields_rec_line5:
  "error_fields rec_line5 =
     Inr (Some \<lparr> f_rule = ''id'', f_msg = ''msg'', f_cats = [''Bug Risk'', ''error''],
                  f_primary = (''tests/cpp_src/four_lines.c'', 5, 0), f_others = [], f_cwe = None,
                  f_rounded = 10 \<rparr>)"
  by code_simp




lemma char_of_digit:
  "char_of (48 :: nat) = CHR ''0''" "char_of (49 :: nat) = CHR ''1''" "char_of (50 :: nat) = CHR ''2''"
  "char_of (51 :: nat) = CHR ''3''" "char_of (52 :: nat) = CHR ''4''" "char_of (53 :: nat) = CHR ''5''"
  "char_of (54 :: nat) = CHR ''6''" "char_of (55 :: nat) = CHR ''7''" "char_of (56 :: nat) = CHR ''8''"
  "char_of (57 :: nat) = CHR ''9''"
  by code_simp+

lemma py_str_50: "py_str 50 = ''50''"
  by (simp add: py_str_def nat_digits.simps char_of_digit)

lemma fp_warning:
  "fields_fingerprint sample_lib \<lparr> f_rule = ''uninitMemberVar'', f_msg = ''bad'', f_cats = [''Bug Risk'', ''warning''],
                  f_primary = (''a.cpp'', 50, 5), f_others = [], f_cwe = Some ''123'',
                  f_rounded = 50 \<rparr> = md5_hex ''a.cpp:50-uninitMemberVar-''"
  by (simp add: fields_fingerprint_def fingerprint_str_def py_str_def nat_digits.simps getline_def
        sample_lib_def strip_def char_of_digit)

lemma fp_line2:
  "fields_fingerprint sample_lib \<lparr> f_rule = ''id'', f_msg = ''msg'', f_cats = [''Bug Risk'', ''error''],
                  f_primary = (''tests/cpp_src/four_lines.c'', 2, 0), f_others = [], f_cwe = None,
                  f_rounded = 10 \<rparr> = md5_hex ''tests/cpp_src/four_lines.c:10-id-int b;''"
  by (simp add: fields_fingerprint_def fingerprint_str_def py_str_def nat_digits.simps getline_def
        sample_lib_def strip_def is_space_def char_of_digit)


lemma converted_alone_eq:
  "converted_alone L e = (case error_fields e of Inr (Some f) \<Rightarrow> [issue_json L f] | _ \<Rightarrow> [])"
proof (cases "error_fields e")
  case (Inl x)
  then show ?thesis by (simp add: converted_alone_def convert_error_Inl)
next
  case (Inr r)
  show ?thesis
  proof (cases r)
    case None
    with Inr show ?thesis by (simp add: converted_alone_def convert_error_None)
  next
    case (Some f)
    with Inr have rf: "error_fields e = Inr (Some f)" by simp
    from convert_error_Some [OF rf template_ok_init, of L] rf show ?thesis
      by (auto simp: converted_alone_def)
  qed
qed

lemma issues_of_alone: "issues_of L errs = concat (map (converted_alone L) errs)"
proof -
  have "converted_alone L = (\<lambda>e. case error_fields e of Inr (Some f) \<Rightarrow> [issue_json L f] | _ \<Rightarrow> [])"
    by (rule ext) (rule converted_alone_eq)
  then show ?thesis by (simp add: issues_of_def)
qed

lemma first_error_isl:
  "first_error errs = None \<longleftrightarrow> \<not> isl (convert_errors L s dict_out errs)"
proof (induction errs arbitrary: s dict_out)
  case Nil
  show ?case by simp
next
  case (Cons e es)
  show ?case
  proof (cases "error_fields e")
    case (Inl x)
    then show ?thesis by (simp add: first_error_Cons convert_error_Inl)
  next
    case (Inr r)
    obtain t q where c: "convert_error L s e = Inr (t, q)"
      using Inr by (cases r; cases "write_issue L (the r) (add_log DEBUG ''Processing -- %s'' s)")
                   (auto simp: convert_error_eq)
    show ?thesis using Inr Cons.IH by (simp add: first_error_Cons c)
  qed
qed

lemma convert_errors_InrD:
  assumes "convert_errors L s dict_out errs = Inr (s', outs)" "template_ok s" "list_all (out_ok s) dict_out"
  shows "template_ok s'" "list_all (out_ok s') outs"
    "map (dump_issue s') outs = map (dump_issue s) dict_out @ concat (map (converted_alone L) errs)"
    "filter (\<lambda>r. fst r \<noteq> DEBUG) (logs s') = filter (\<lambda>r. fst r \<noteq> DEBUG) (logs s)"
proof -
  from assms(1) have "\<not> isl (convert_errors L s dict_out errs)" by simp
  then have fe: "first_error errs = None" using first_error_isl by blast
  from convert_errors_ok [OF fe assms(2,3), of L] assms(1)
  show "template_ok s'" "list_all (out_ok s') outs"
    "map (dump_issue s') outs = map (dump_issue s) dict_out @ concat (map (converted_alone L) errs)"
    "filter (\<lambda>r. fst r \<noteq> DEBUG) (logs s') = filter (\<lambda>r. fst r \<noteq> DEBUG) (logs s)"
    by (auto simp: issues_of_alone)
qed

text \<open>
  C9: every element appended to the output is a deep copy, so it keeps the values of
  its own record: after the records \<open>pre\<close> the output reads, in the order of the
  document, as what each record yields when converted alone; processing the later
  records \<open>post\<close>, which write through the same nested dictionaries of the template,
  leaves these elements as they were read before and appends its own after them.
\<close>

theorem C9_outputs_retained:
  assumes "template_ok s"
    and "convert_errors L s [] pre = Inr (s1, outs1)"
    and "convert_errors L s1 outs1 post = Inr (s2, outs2)"
  shows "map (dump_issue s1) outs1 = concat (map (converted_alone L) pre)
       \<and> map (dump_issue s2) outs2
           = map (dump_issue s1) outs1 @ concat (map (converted_alone L) post)
       \<and> take (length outs1) (map (dump_issue s2) outs2) = map (dump_issue s1) outs1"
proof -
  note a = convert_errors_InrD [OF assms(2) assms(1)]
  have a3: "map (dump_issue s1) outs1 = concat (map (converted_alone L) pre)"
    using a(3) by simp
  have a2: "list_all (out_ok s1) outs1" using a(2) by simp
  have a1: "template_ok s1" using a(1) by simp
  note b = convert_errors_InrD [OF assms(3) a1 a2]
  have "take (length outs1) (map (dump_issue s2) outs2) = map (dump_issue s1) outs1"
    by (simp add: b(3))
  with a3 b(3) show ?thesis by simp
qed


lemma alone_warning: "converted_alone sample_lib rec_warning = [issue_warning]"
  by (simp add: converted_alone_eq fields_rec_warning issue_json_def fp_warning loc_json_def
        issue_warning_def)

lemma alone_no_location: "converted_alone L rec_no_location = []"
  by (simp add: converted_alone_eq fields_rec_no_location)

lemma fp_file0_two:
  "fields_fingerprint sample_lib \<lparr> f_rule = ''id'', f_msg = ''msg'', f_cats = [''Bug Risk'', ''error''],
                  f_primary = (''tests/cpp_src/four_lines.c'', 15, 0),
                  f_others = [(''tests/cpp_src/Foo.h'', 17, 0)], f_cwe = None, f_rounded = 20 \<rparr>
     = md5_hex ''tests/cpp_src/four_lines.c:20-id-''"
  by (simp add: fields_fingerprint_def fingerprint_str_def py_str_def nat_digits.simps getline_def
        sample_lib_def strip_def char_of_digit)

lemma alone_file0_two: "converted_alone sample_lib rec_file0_two = [issue_file0_two]"
  by (simp add: converted_alone_eq fields_rec_file0_two issue_json_def fp_file0_two loc_json_def
        issue_file0_two_def)

theorem C9_outputs_retained_witness:
  "template_ok module_init
   \<and> (case convert_errors sample_lib module_init [] [rec_warning, rec_no_location] of
         Inl x \<Rightarrow> False
       | Inr (s1, outs1) \<Rightarrow>
           (case convert_errors sample_lib s1 outs1 [rec_file0_two] of
              Inl x \<Rightarrow> False
            | Inr (s2, outs2) \<Rightarrow>
                map (dump_issue s1) outs1 = [issue_warning]
                \<and> map (dump_issue s2) outs2 = [issue_warning, issue_file0_two]))"
proof -
  have fe1: "first_error [rec_warning, rec_no_location] = None"
    by (simp add: first_error_Cons fields_rec_warning fields_rec_no_location)
  from convert_errors_ok [OF fe1 template_ok_init, of "[]" sample_lib]
  obtain s1 outs1 where c1: "convert_errors sample_lib module_init [] [rec_warning, rec_no_location] = Inr (s1, outs1)"
    and ok1: "template_ok s1" and o1: "list_all (out_ok s1) outs1"
    by auto
  have fe2: "first_error [rec_file0_two] = None"
    by (simp add: first_error_Cons fields_rec_file0_two)
  from convert_errors_ok [OF fe2 ok1 o1, of sample_lib]
  obtain s2 outs2 where c2: "convert_errors sample_lib s1 outs1 [rec_file0_two] = Inr (s2, outs2)"
    by auto
  from C9_outputs_retained [OF template_ok_init c1 c2]
  have r: "map (dump_issue s1) outs1 = [issue_warning]"
    "map (dump_issue s2) outs2 = [issue_warning, issue_file0_two]"
    by (simp_all add: alone_warning alone_no_location alone_file0_two)
  show ?thesis
    unfolding c1 sum.case prod.case c2 using r template_ok_init by simp
qed

lemma version_190: "str_less ''1.90'' ''1.82'' = False"
  by code_simp

lemma convert_dict_sample:
  "convert_dict L s (sample_report (XDict as [(''error'', err)])) =
     rbind (convert_errors L s [] (case err of XList es \<Rightarrow> es | _ \<Rightarrow> [err]))
       (\<lambda>(s2, dict_out).
          Inr (if dict_out = [] then add_log WARNING ''Result is empty'' s2 else s2,
               RetStr (json_dumps L (JList (map (dump_issue
                 (if dict_out = [] then add_log WARNING ''Result is empty'' s2 else s2)) dict_out)))))"
  unfolding convert_dict_def sample_report_def
  by (simp add: is_attr_key_def version_190 Let_def rbind_def split: sum.splits prod.splits)

lemma single_error_list: "is_dict e \<Longrightarrow> (case e of XList es \<Rightarrow> es | _ \<Rightarrow> [e]) = [e]"
  by (cases e) simp_all

lemma samples_are_dicts:
  "is_dict rec_warning" "is_dict rec_file0" "is_dict rec_file0_two" "is_dict rec_three_locations"
  "is_dict rec_no_location" "is_dict rec_unknown_severity" "is_dict rec_line5" "is_dict rec_line2"
  "is_dict rec_far_line"
  by (simp_all add: rec_warning_def rec_file0_def rec_file0_two_def rec_three_locations_def
        rec_no_location_def rec_unknown_severity_def rec_line5_def rec_line2_def rec_far_line_def)

lemma convert_errors_single_fail:
  "error_fields e = Inl x \<Longrightarrow> convert_errors L s [] [e] = Inl x"
  by (simp add: convert_error_Inl)

lemma convert_errors_single:
  assumes "error_fields e = Inr (Some f)" "template_ok s"
  shows "\<exists>t. convert_errors L s [] [e] = Inr (t, [Suc (length (issues s))])
           \<and> dump_issue t (Suc (length (issues s))) = issue_json L f
           \<and> locations t ! 0 = \<lparr> l_path = fst (f_primary f), l_positions = 0 \<rparr>
           \<and> begins t ! 0 = \<lparr> b_line = fst (snd (f_primary f)), b_column = snd (snd (f_primary f)) \<rparr>
           \<and> issues t ! CODE_QUAL_ELEMENT = template_issue
           \<and> positionss t ! 0 = \<lparr> p_begin = 0 \<rparr>
           \<and> logs t = logs s @ [(DEBUG, ''Processing -- %s''),
                                   (DEBUG, ''Fingerprint string:'' @ [CHR 0x0A] @ ''  %s'')]"
proof -
  from convert_error_Some [OF assms, of L] obtain t where
    t: "convert_error L s e = Inr (t, Some (Suc (length (issues s))))" "template_ok t"
      "dump_issue t (Suc (length (issues s))) = issue_json L f"
      "locations t ! 0 = \<lparr> l_path = fst (f_primary f), l_positions = 0 \<rparr>"
      "begins t ! 0 = \<lparr> b_line = fst (snd (f_primary f)), b_column = snd (snd (f_primary f)) \<rparr>"
      "logs t = logs s @ [(DEBUG, ''Processing -- %s''),
                          (DEBUG, ''Fingerprint string:'' @ [CHR 0x0A] @ ''  %s'')]"
    by blast
  have "positionss t ! 0 = \<lparr> p_begin = 0 \<rparr>"
    using t(2) by (cases "positionss t ! 0") (simp add: template_ok_def)
  moreover have "issues t ! CODE_QUAL_ELEMENT = template_issue"
    using t(2) by (simp add: template_ok_def)
  moreover have "convert_errors L s [] [e] = Inr (t, [Suc (length (issues s))])"
    by (simp add: t(1))
  ultimately show ?thesis using t(3-6) by blast
qed

text \<open>
  C6 (the code departs from the claim): the report of the repository's test
  \<^verbatim>\<open>test_convert_multiple_locations\<close> has an error with three locations, the first
  two without a \<^verbatim>\<open>column\<close> attribute. The branch for several locations reads
  \<^verbatim>\<open>"@column"\<close> without the test that the branch for one location makes, and the
  conversion raises \<^verbatim>\<open>KeyError\<close>.
\<close>

theorem C6_missing_column_raises:
  "convert_dict sample_lib module_init (sample_report (XDict [] [(''error'', rec_three_locations)]))
     = Inl (KeyError ''@column'')"
proof -
  have "convert_errors sample_lib module_init [] [rec_three_locations] = Inl (KeyError ''@column'')"
    by (rule convert_errors_single_fail [OF fields_rec_three_locations])
  then show ?thesis
    by (simp only: convert_dict_sample single_error_list [OF samples_are_dicts(4)] rbind_simps)
qed

declare convert_errors.simps [simp del]

lemma length_issues_init: "Suc (length (issues module_init)) = 2" "logs module_init = []"
  by (simp_all add: module_init_def)

lemma jfield_severity_dump: "jfield ''severity'' (dump_issue s a) = None"
  by (simp add: dump_issue_def Let_def split: option.splits)

lemma issue_json_warning:
  "issue_json sample_lib \<lparr> f_rule = ''uninitMemberVar'', f_msg = ''bad'', f_cats = [''Bug Risk'', ''warning''],
                  f_primary = (''a.cpp'', 50, 5), f_others = [], f_cwe = Some ''123'',
                  f_rounded = 50 \<rparr> = issue_warning"
  by (simp add: issue_json_def fp_warning loc_json_def issue_warning_def)

lemma sample_warning_run:
  "\<exists>t. convert_errors sample_lib module_init [] [rec_warning] = Inr (t, [2])
       \<and> dump_issue t 2 = issue_warning
       \<and> locations t ! 0 = \<lparr> l_path = ''a.cpp'', l_positions = 0 \<rparr>
       \<and> begins t ! 0 = \<lparr> b_line = 50, b_column = 5 \<rparr>
       \<and> issues t ! CODE_QUAL_ELEMENT = template_issue
       \<and> positionss t ! 0 = \<lparr> p_begin = 0 \<rparr>
       \<and> logs t = [(DEBUG, ''Processing -- %s''),
                    (DEBUG, ''Fingerprint string:'' @ [CHR 0x0A] @ ''  %s'')]"
  using convert_errors_single [OF fields_rec_warning template_ok_init, of sample_lib]
  by (simp add: issue_json_warning length_issues_init)

text \<open>
  C2 (the code departs from the claim): no issue that the converter writes has a
  \<^verbatim>\<open>severity\<close> key. For the record of the repository's test
  \<^verbatim>\<open>test_convert_severity_warning\<close> the output is \<open>issue_warning\<close>, where the specification's
  table asks for the severity \<^verbatim>\<open>major\<close>.
\<close>

theorem C2_no_severity_field:
  "jfield ''severity'' (dump_issue s a) = None
   \<and> (case convert_errors sample_lib module_init [] [rec_warning] of
         Inl x \<Rightarrow> False
       | Inr (t, outs) \<Rightarrow> map (dump_issue t) outs = [issue_warning])
   \<and> jfield ''severity'' issue_warning = None
   \<and> spec_severity_level ''warning'' = Some ''major''"
proof -
  from sample_warning_run obtain t where
    t: "convert_errors sample_lib module_init [] [rec_warning] = Inr (t, [2])"
      "dump_issue t 2 = issue_warning"
    by blast
  have "jfield ''severity'' issue_warning = None" by (simp add: issue_warning_def)
  moreover have "spec_severity_level ''warning'' = Some ''major''"
    by (simp add: spec_severity_level_def)
  ultimately show ?thesis
    unfolding t(1) sum.case prod.case using t(2) jfield_severity_dump by simp
qed

text \<open>
  C5 (the code departs from the claim): the \<^verbatim>\<open>check_name\<close> of an issue is the bare
  rule id. For the record of the repository's test \<^verbatim>\<open>test_convert_severity_warning\<close> it
  is \<^verbatim>\<open>uninitMemberVar\<close>, where the test asks for \<^verbatim>\<open>cppcheck[uninitMemberVar]\<close>.
\<close>

theorem C5_bare_check_name:
  "(case convert_errors sample_lib module_init [] [rec_warning] of
      Inl x \<Rightarrow> False
    | Inr (t, outs) \<Rightarrow>
        map (\<lambda>a. jfield ''check_name'' (dump_issue t a)) outs = [Some (JStr ''uninitMemberVar'')])
   \<and> ''uninitMemberVar'' \<noteq> ''cppcheck[uninitMemberVar]''"
proof -
  from sample_warning_run obtain t where
    t: "convert_errors sample_lib module_init [] [rec_warning] = Inr (t, [2])"
      "dump_issue t 2 = issue_warning"
    by blast
  have "jfield ''check_name'' issue_warning = Some (JStr ''uninitMemberVar'')"
    by (simp add: issue_warning_def)
  then show ?thesis
    unfolding t(1) sum.case prod.case using t(2) by simp
qed


lemma fp_line5:
  "fields_fingerprint sample_lib \<lparr> f_rule = ''id'', f_msg = ''msg'', f_cats = [''Bug Risk'', ''error''],
                  f_primary = (''tests/cpp_src/four_lines.c'', 5, 0), f_others = [], f_cwe = None,
                  f_rounded = 10 \<rparr> = md5_hex ''tests/cpp_src/four_lines.c:10-id-''"
  by (simp add: fields_fingerprint_def fingerprint_str_def py_str_def nat_digits.simps getline_def
        sample_lib_def strip_def char_of_digit)

text \<open>
  C7 (the code departs from the claim): the report of the repository's test
  \<^verbatim>\<open>test_source_line_extractor_longer_than_file\<close> asks for line 5 of a file of four
  lines. The conversion succeeds and the fingerprint is the digest of the key with an
  empty source line, but nothing is logged above the debug level: the log of the whole
  conversion holds the two debug records of the loop and no warning, where the test
  asks for one.
\<close>

theorem C7_no_warning_logged:
  "(case convert_dict sample_lib module_init (sample_report (XDict [] [(''error'', rec_line5)])) of
      Inl x \<Rightarrow> False
    | Inr (t, r) \<Rightarrow>
        logs t = [(DEBUG, ''Processing -- %s''),
                  (DEBUG, ''Fingerprint string:'' @ [CHR 0x0A] @ ''  %s'')]
        \<and> filter (\<lambda>r. fst r = WARNING) (logs t) = [])
   \<and> (case convert_errors sample_lib module_init [] [rec_line5] of
         Inl x \<Rightarrow> False
       | Inr (t, outs) \<Rightarrow>
           map (\<lambda>a. jfield ''fingerprint'' (dump_issue t a)) outs
             = [Some (JStr (md5_hex ''tests/cpp_src/four_lines.c:10-id-''))])
   \<and> length (linecache_getlines sample_lib ''tests/cpp_src/four_lines.c'') = 4"
proof -
  from convert_errors_single [OF fields_rec_line5 template_ok_init, of sample_lib]
  obtain t where
    t: "convert_errors sample_lib module_init [] [rec_line5] = Inr (t, [2])"
      "dump_issue t 2 = issue_json sample_lib \<lparr> f_rule = ''id'', f_msg = ''msg'', f_cats = [''Bug Risk'', ''error''],
                  f_primary = (''tests/cpp_src/four_lines.c'', 5, 0), f_others = [], f_cwe = None,
                  f_rounded = 10 \<rparr>"
      "logs t = [(DEBUG, ''Processing -- %s''),
                 (DEBUG, ''Fingerprint string:'' @ [CHR 0x0A] @ ''  %s'')]"
    by (auto simp: length_issues_init)
  have c: "convert_dict sample_lib module_init (sample_report (XDict [] [(''error'', rec_line5)]))
            = Inr (t, RetStr (json_dumps sample_lib (JList (map (dump_issue t) [2]))))"
    by (simp add: convert_dict_sample single_error_list [OF samples_are_dicts(7)] t(1))
  have f: "jfield ''fingerprint'' (dump_issue t 2)
            = Some (JStr (md5_hex ''tests/cpp_src/four_lines.c:10-id-''))"
    by (simp add: t(2) issue_json_def fp_line5)
  have n: "length (linecache_getlines sample_lib ''tests/cpp_src/four_lines.c'') = 4"
    by (simp add: sample_lib_def)
  show ?thesis
    unfolding c t(1) sum.case prod.case using f n by (simp add: t(3))
qed









































































end
